theory Spec2Isabelle
  imports Complex_Main "HOL-Library.AList"
begin

unbundle bit_operations_syntax

section \<open>Data model\<close>

text \<open>
  The scene graph of the renderer: \<open>CoreNode\<close> (core/CoreNode), the node registry
  \<open>tree\<close> (core/Tree) and \<open>CoreAnimation\<close> (core/animations/CoreAnimation).

  JavaScript numbers are modelled as reals: arithmetic is exact, there is no rounding,
  no NaN and no infinity. Node ids are integers. The bit masks \<open>recalculationType\<close> and
  \<open>updateMask\<close> are natural numbers with bitwise \<open>OR\<close> and \<open>AND\<close>; the source only
  ever stores small non-negative integers in them.

  A JavaScript object reference is an address (\<open>addr\<close>); the heap maps every address to
  a node, so that two references to the same node see each other's writes. A reference is
  never dangling, hence the heap is a total function.
\<close>

type_synonym addr = nat

datatype error =
    AssertionFailed   \<comment> \<open>thrown by \<open>assertTruthy\<close>\<close>
  | TypeError         \<comment> \<open>a property read on \<open>undefined\<close>\<close>
  | RangeError        \<comment> \<open>call stack exhausted by a recursive getter\<close>
  | UndefinedValue    \<comment> \<open>arithmetic on \<open>undefined\<close>, which the reals cannot hold\<close>

record Matrix3d =
  ta :: real
  tb :: real
  tc :: real
  td :: real
  tx :: real
  ty :: real

record Rect =
  rx :: real
  ry :: real
  rwidth :: real
  rheight :: real

text \<open>
  The source compares clipping rectangles by identity (\<open>===\<close>), so a reference to a
  rectangle carries the identity of the object next to its (immutable) contents.
\<close>

type_synonym rect_ref = "nat \<times> Rect"

text \<open>\<open>CoreNodeProps\<close>; the field \<open>id\<close> is named \<open>id'\<close> here. Textures and shaders are
  opaque handles.\<close>

record CoreNodeProps =
  id' :: int
  x :: real
  y :: real
  width :: real
  height :: real
  alpha :: real
  clipping :: bool
  color :: real
  colorTop :: real
  colorBottom :: real
  colorLeft :: real
  colorRight :: real
  colorTl :: real
  colorTr :: real
  colorBl :: real
  colorBr :: real
  zIndex :: real
  texture :: "nat option"
  textureOptions :: "nat option"
  shader :: "nat option"
  shaderProps :: "nat option"
  zIndexLocked :: real
  scaleX :: real
  scaleY :: real
  mount :: real
  mountX :: real
  mountY :: real
  pivot :: real
  pivotX :: real
  pivotY :: real
  rotation :: real

text \<open>The fields of class \<open>CoreNode\<close>, in the order of the source.\<close>

record CoreNode =
  props :: CoreNodeProps
  recalculationType :: nat
  hasUpdates :: bool
  globalTransform :: "Matrix3d option"
  scaleRotateTransform :: "Matrix3d option"
  localTransform :: "Matrix3d option"
  clippingRect :: "rect_ref option"
  parentClippingRect :: "rect_ref option"
  parentId :: "int option"
  childrenIds :: "int list"
  isComplex :: bool
  updateMask :: nat
  children :: "addr list"
  parentNode :: "addr option"

text \<open>
  The module state of core/Tree: \<open>_tree\<close> and \<open>_dirtyNodes\<close> are JavaScript Maps, which
  keep insertion order; they are association lists here (\<open>tree_map\<close>, \<open>dirtyNodes\<close>).
  \<open>nextRect\<close> numbers the rectangle objects allocated so far.
\<close>

record state =
  heap :: "addr \<Rightarrow> CoreNode"
  tree_map :: "(int \<times> addr) list"
  dirtyNodes :: "(int \<times> addr) list"
  nextRect :: nat

definition upd_node :: "state \<Rightarrow> addr \<Rightarrow> (CoreNode \<Rightarrow> CoreNode) \<Rightarrow> state" where
  "upd_node s a f = s\<lparr>heap := (heap s)(a := f (heap s a))\<rparr>"

definition upd_props :: "state \<Rightarrow> addr \<Rightarrow> (CoreNodeProps \<Rightarrow> CoreNodeProps) \<Rightarrow> state" where
  "upd_props s a f = upd_node s a (\<lambda>n. n\<lparr>props := f (props n)\<rparr>)"

text \<open>JavaScript's \<open>a || b\<close> on numbers: \<open>b\<close> when \<open>a\<close> is falsy, that is \<open>0\<close>
  (or \<open>undefined\<close>, written \<open>None\<close>).\<close>

definition js_or :: "real \<Rightarrow> real \<Rightarrow> real" where
  "js_or a b = (if a = 0 then b else a)"

definition js_or_undef :: "real option \<Rightarrow> real \<Rightarrow> real" where
  "js_or_undef a b = (case a of None \<Rightarrow> b | Some v \<Rightarrow> js_or v b)"

definition ebind :: "error + 'a \<Rightarrow> ('a \<Rightarrow> error + 'b) \<Rightarrow> error + 'b" where
  "ebind m f = (case m of Inl e \<Rightarrow> Inl e | Inr v \<Rightarrow> f v)"

section \<open>Helpers that the sources import\<close>

text \<open>
  Modelled from the spec: \<open>assertTruthy\<close> (utils.js is not among the sources). The spec
  has a violated assertion abort with a fault. Whether assertions are active is the
  parameter \<open>asserts\<close>: with \<open>asserts = False\<close> the helper does nothing and the code
  after it runs on the falsy value.
\<close>

definition assertTruthy :: "bool \<Rightarrow> bool \<Rightarrow> error + unit" where
  "assertTruthy asserts cond = (if asserts \<and> \<not> cond then Inl AssertionFailed else Inr ())"

text \<open>
  Modelled from the spec: \<open>Matrix3d\<close> (lib/Matrix3d.js is not among the sources): a 2D
  affine transform with the six coefficients that \<open>renderQuads\<close> reads, standing for the
  matrix with rows \<open>(ta, tb, tx)\<close>, \<open>(tc, td, ty)\<close>, \<open>(0, 0, 1)\<close>, supporting
  translate, scale, rotate and composition. The optional \<open>out\<close> argument of the static
  functions only names the object that receives the result and is dropped.
\<close>

definition Matrix3d_identity :: Matrix3d where
  "Matrix3d_identity = \<lparr>ta = 1, tb = 0, tc = 0, td = 1, tx = 0, ty = 0\<rparr>"

definition Matrix3d_multiply :: "Matrix3d \<Rightarrow> Matrix3d \<Rightarrow> Matrix3d" where
  "Matrix3d_multiply a b =
     \<lparr>ta = ta a * ta b + tb a * tc b,
      tb = ta a * tb b + tb a * td b,
      tc = tc a * ta b + td a * tc b,
      td = tc a * tb b + td a * td b,
      tx = ta a * tx b + tb a * ty b + tx a,
      ty = tc a * tx b + td a * ty b + ty a\<rparr>"

definition Matrix3d_translate :: "real \<Rightarrow> real \<Rightarrow> Matrix3d" where
  "Matrix3d_translate dx dy = \<lparr>ta = 1, tb = 0, tc = 0, td = 1, tx = dx, ty = dy\<rparr>"

definition Matrix3d_scale :: "real \<Rightarrow> real \<Rightarrow> Matrix3d" where
  "Matrix3d_scale sx sy = \<lparr>ta = sx, tb = 0, tc = 0, td = sy, tx = 0, ty = 0\<rparr>"

definition Matrix3d_rotate :: "real \<Rightarrow> Matrix3d" where
  "Matrix3d_rotate angle =
     \<lparr>ta = cos angle, tb = - sin angle, tc = sin angle, td = cos angle, tx = 0, ty = 0\<rparr>"

definition Matrix3d_copy :: "Matrix3d \<Rightarrow> Matrix3d" where
  "Matrix3d_copy src = src"

text \<open>The instance methods \<open>m.multiply(b)\<close>, \<open>m.translate(dx, dy)\<close> and
  \<open>m.scale(sx, sy)\<close> compose on the right.\<close>

definition multiply :: "Matrix3d \<Rightarrow> Matrix3d \<Rightarrow> Matrix3d" where
  "multiply m b = Matrix3d_multiply m b"

definition translate :: "Matrix3d \<Rightarrow> real \<Rightarrow> real \<Rightarrow> Matrix3d" where
  "translate m dx dy = Matrix3d_multiply m (Matrix3d_translate dx dy)"

definition scale :: "Matrix3d \<Rightarrow> real \<Rightarrow> real \<Rightarrow> Matrix3d" where
  "scale m sx sy = Matrix3d_multiply m (Matrix3d_scale sx sy)"

text \<open>
  Modelled from the spec: \<open>intersectRect\<close> (lib/utils.js is not among the sources): the
  intersection of two axis-aligned rectangles, empty intersections having size zero.
\<close>

definition intersectRect :: "Rect \<Rightarrow> Rect \<Rightarrow> Rect" where
  "intersectRect a b =
     (let x0 = max (rx a) (rx b); y0 = max (ry a) (ry b)
      in \<lparr>rx = x0, ry = y0,
          rwidth = max 0 (min (rx a + rwidth a) (rx b + rwidth b) - x0),
          rheight = max 0 (min (ry a + rheight a) (ry b + rheight b) - y0)\<rparr>)"

section \<open>The node registry (core/Tree)\<close>

definition tree_add :: "state \<Rightarrow> addr \<Rightarrow> state" where
  "tree_add s node = s\<lparr>tree_map := AList.update (id' (props (heap s node))) node (tree_map s)\<rparr>"

text \<open>\<open>tree.get(id)\<close>: \<open>null\<close> for the id \<open>null\<close>; otherwise the Map lookup, asserted to be
  found. \<open>null\<close> and \<open>undefined\<close> are both \<open>None\<close>.\<close>

definition tree_get :: "bool \<Rightarrow> state \<Rightarrow> int option \<Rightarrow> error + addr option" where
  "tree_get asserts s i =
     (case i of
        None \<Rightarrow> Inr None
      | Some k \<Rightarrow>
          (let resp = map_of (tree_map s) k
           in ebind (assertTruthy asserts (resp \<noteq> None)) (\<lambda>_. Inr resp)))"

definition tree_remove :: "state \<Rightarrow> int \<Rightarrow> state" where
  "tree_remove s k = s\<lparr>tree_map := AList.delete k (tree_map s)\<rparr>"

definition tree_getAllNodes :: "state \<Rightarrow> addr list" where
  "tree_getAllNodes s = map snd (tree_map s)"

text \<open>The \<open>idList.map(...)\<close> of \<open>getNodes\<close>: the callback runs left to right and the
  first fault ends the call.\<close>

fun getNodes_map :: "bool \<Rightarrow> state \<Rightarrow> int list \<Rightarrow> error + addr option list" where
  "getNodes_map asserts s [] = Inr []"
| "getNodes_map asserts s (k # ks) =
     ebind (tree_get asserts s (Some k)) (\<lambda>node.
       ebind (getNodes_map asserts s ks) (\<lambda>rest. Inr (node # rest)))"

text \<open>\<open>.filter(Boolean)\<close> on the mapped list keeps the entries that are nodes.\<close>

definition filter_Boolean :: "addr option list \<Rightarrow> addr list" where
  "filter_Boolean rs = map the (filter (\<lambda>r. r \<noteq> None) rs)"

text \<open>\<open>tree.getNodes(idList)\<close>; \<open>idList = None\<close> is the argument \<open>undefined\<close>.\<close>

definition tree_getNodes :: "bool \<Rightarrow> state \<Rightarrow> int list option \<Rightarrow> error + addr list" where
  "tree_getNodes asserts s idList =
     (case idList of
        Some ids \<Rightarrow>
          if length ids > 0
          then ebind (getNodes_map asserts s ids) (\<lambda>rs. Inr (filter_Boolean rs))
          else Inr (map snd (tree_map s))
      | None \<Rightarrow> Inr (map snd (tree_map s)))"

definition tree_markDirty :: "state \<Rightarrow> addr \<Rightarrow> state" where
  "tree_markDirty s node =
     s\<lparr>dirtyNodes := AList.update (id' (props (heap s node))) node (dirtyNodes s)\<rparr>"


definition tree_clearDirtyNodes :: "state \<Rightarrow> state" where
  "tree_clearDirtyNodes s = s\<lparr>dirtyNodes := []\<rparr>"

definition tree_hasDirtyNodes :: "state \<Rightarrow> bool" where
  "tree_hasDirtyNodes s = (length (dirtyNodes s) > 0)"

section \<open>Scene nodes (core/CoreNode)\<close>

subsection \<open>Dirty flags\<close>

definition setHasUpdates :: "state \<Rightarrow> addr \<Rightarrow> state" where
  "setHasUpdates s a = tree_markDirty (upd_node s a (\<lambda>n. n\<lparr>hasUpdates := True\<rparr>)) a"

definition setChildrenHasUpdates :: "state \<Rightarrow> addr \<Rightarrow> state" where
  "setChildrenHasUpdates s a =
     (if length (childrenIds (heap s a)) = 0 then s
      else upd_node s a (\<lambda>n. n\<lparr>updateMask := updateMask n OR 1\<rparr>))"

text \<open>\<open>!this.parentId\<close> holds for \<open>null\<close> and for the id \<open>0\<close>.\<close>

definition falsy_id :: "int option \<Rightarrow> bool" where
  "falsy_id i = (case i of None \<Rightarrow> True | Some k \<Rightarrow> k = 0)"

definition setParentHasUpdates :: "state \<Rightarrow> addr \<Rightarrow> state" where
  "setParentHasUpdates s a =
     (if falsy_id (parentId (heap s a)) then s
      else upd_node s a (\<lambda>n. n\<lparr>updateMask := updateMask n OR 2\<rparr>))"

definition setRecalculationType :: "state \<Rightarrow> addr \<Rightarrow> nat \<Rightarrow> state" where
  "setRecalculationType s a type =
     (let s1 = upd_node s a (\<lambda>n. n\<lparr>recalculationType := recalculationType n OR type\<rparr>);
          s2 = setHasUpdates s1 a;
          s3 = (if type AND 1 \<noteq> 0 then setParentHasUpdates s2 a else s2)
      in if type AND 4 \<noteq> 0 then setChildrenHasUpdates s3 a else s3)"

subsection \<open>Getters that walk the parent chain\<close>

text \<open>The getter \<open>parent\<close>: refreshes the cached reference from the registry when bit 2
  of \<open>updateMask\<close> is set.\<close>

definition CoreNode_parent :: "bool \<Rightarrow> state \<Rightarrow> addr \<Rightarrow> error + (addr option \<times> state)" where
  "CoreNode_parent asserts s a =
     (if updateMask (heap s a) AND 2 \<noteq> 0
      then ebind (tree_get asserts s (parentId (heap s a))) (\<lambda>r.
             Inr (r, upd_node s a (\<lambda>n. n\<lparr>parentNode := r\<rparr>)))
      else Inr (parentNode (heap s a), s))"

definition get_zIndexLocked :: "CoreNode \<Rightarrow> real" where
  "get_zIndexLocked n = js_or (zIndexLocked (props n)) 0"

text \<open>
  The getters \<open>zIndex\<close> and \<open>worldAlpha\<close> call themselves on the parent. The first
  argument bounds the depth of the call stack: JavaScript throws a \<open>RangeError\<close> when the
  stack is exhausted, as it is on a cyclic parent chain.
\<close>

fun CoreNode_zIndex :: "nat \<Rightarrow> bool \<Rightarrow> state \<Rightarrow> addr \<Rightarrow> error + (real \<times> state)" where
  "CoreNode_zIndex 0 asserts s a = Inl RangeError"
| "CoreNode_zIndex (Suc depth) asserts s a =
     ebind (CoreNode_parent asserts s a) (\<lambda>(parent, s1).
       let z = js_or (zIndex (props (heap s1 a))) 0
       in case parent of
            None \<Rightarrow> Inr (z, s1)
          | Some pa \<Rightarrow>
              ebind (CoreNode_zIndex depth asserts s1 pa) (\<lambda>(pz, s2).
                let p = js_or pz 0
                in if get_zIndexLocked (heap s2 pa) \<noteq> 0
                   then Inr (if z < p then z else p, s2)
                   else Inr (z, s2)))"

fun CoreNode_worldAlpha :: "nat \<Rightarrow> bool \<Rightarrow> state \<Rightarrow> addr \<Rightarrow> error + (real \<times> state)" where
  "CoreNode_worldAlpha 0 asserts s a = Inl RangeError"
| "CoreNode_worldAlpha (Suc depth) asserts s a =
     ebind (CoreNode_parent asserts s a) (\<lambda>(parent, s1).
       case parent of
         None \<Rightarrow> Inr (alpha (props (heap s1 a)) * js_or_undef None 1, s1)
       | Some pa \<Rightarrow>
           ebind (CoreNode_worldAlpha depth asserts s1 pa) (\<lambda>(pw, s2).
             Inr (alpha (props (heap s2 a)) * js_or_undef (Some pw) 1, s2)))"

subsection \<open>Sorting the children\<close>

text \<open>
  \<open>this.children.sort((a, b) => a.zIndex - b.zIndex)\<close>. The sort is stable and its
  comparator reads the \<open>zIndex\<close> getter of the children; a list of fewer than two
  elements is never compared. The getter's only effect is the refresh of cached parent
  references, which is the same however often and in whichever order the comparator runs,
  so the keys are read once per child, left to right, and the children are then put in
  stable order of their keys.
\<close>

fun zIndex_keys :: "nat \<Rightarrow> bool \<Rightarrow> state \<Rightarrow> addr list \<Rightarrow> error + (real list \<times> state)" where
  "zIndex_keys depth asserts s [] = Inr ([], s)"
| "zIndex_keys depth asserts s (c # cs) =
     ebind (CoreNode_zIndex depth asserts s c) (\<lambda>(z, s1).
       ebind (zIndex_keys depth asserts s1 cs) (\<lambda>(zs, s2). Inr (z # zs, s2)))"

definition sortChildren :: "nat \<Rightarrow> bool \<Rightarrow> state \<Rightarrow> addr \<Rightarrow> error + state" where
  "sortChildren depth asserts s a =
     (let cs = children (heap s a)
      in if length cs < 2 then Inr s
         else ebind (zIndex_keys depth asserts s cs) (\<lambda>(zs, s1).
                Inr (upd_node s1 a (\<lambda>n. n\<lparr>children := map snd (sort_key fst (zip zs cs))\<rparr>))))"

subsection \<open>Transforms\<close>

text \<open>\<open>updateLocalTransform\<close>: with assertions off, a missing scale-rotate matrix reaches
  \<open>multiply\<close>, which reads the coefficients of \<open>undefined\<close>.\<close>

definition updateLocalTransform :: "bool \<Rightarrow> state \<Rightarrow> addr \<Rightarrow> error + state" where
  "updateLocalTransform asserts s a =
     (let n = heap s a; p = props n
      in ebind (assertTruthy asserts (scaleRotateTransform n \<noteq> None)) (\<lambda>_.
           let pivotTranslateX = pivotX p * width p;
               pivotTranslateY = pivotY p * height p;
               mountTranslateX = mountX p * width p;
               mountTranslateY = mountY p * height p
           in case scaleRotateTransform n of
                None \<Rightarrow> Inl TypeError
              | Some sr \<Rightarrow>
                  Inr (upd_node s a (\<lambda>n. n\<lparr>localTransform :=
                    Some (translate
                            (multiply
                               (Matrix3d_translate (pivotTranslateX - mountTranslateX + x p)
                                                   (pivotTranslateY - mountTranslateY + y p))
                               sr)
                            (- pivotTranslateX) (- pivotTranslateY))\<rparr>))))"

definition updateScaleRotateTransform :: "bool \<Rightarrow> state \<Rightarrow> addr \<Rightarrow> error + state" where
  "updateScaleRotateTransform asserts s a =
     (let p = props (heap s a);
          s1 = upd_node s a (\<lambda>n. n\<lparr>scaleRotateTransform :=
                 Some (scale (Matrix3d_rotate (rotation p)) (scaleX p) (scaleY p))\<rparr>)
      in updateLocalTransform asserts s1 a)"

subsection \<open>Clipping rectangle\<close>

definition same_rect :: "rect_ref option \<Rightarrow> rect_ref option \<Rightarrow> bool" where
  "same_rect r1 r2 = (map_option fst r1 = map_option fst r2)"

definition calculateClippingRect :: "state \<Rightarrow> addr \<Rightarrow> rect_ref option \<Rightarrow> state" where
  "calculateClippingRect s a parentClippingRect' =
     (let n = heap s a
      in case globalTransform n of
           None \<Rightarrow> s
         | Some gt \<Rightarrow>
             if \<not> clipping (props n) \<and> parentClippingRect' = None
             then upd_node s a (\<lambda>n. n\<lparr>clippingRect := None\<rparr>)
             else if same_rect (parentClippingRect n) parentClippingRect' \<and> clippingRect n \<noteq> None
             then s
             else
               let isRotated = (tb gt \<noteq> 0 \<or> tc gt \<noteq> 0);
                   own = (if clipping (props n) \<and> \<not> isRotated
                          then Some \<lparr>rx = tx gt, ry = ty gt,
                                     rwidth = width (props n) * ta gt,
                                     rheight = height (props n) * td gt\<rparr>
                          else None);
                   k = nextRect s;
                   (k', result) =
                     (case (parentClippingRect', own) of
                        (Some pr, Some r) \<Rightarrow> (k + 2, Some (k + 1, intersectRect (snd pr) r))
                      | (Some pr, None) \<Rightarrow> (k, Some pr)
                      | (None, Some r) \<Rightarrow> (k + 1, Some (k, r))
                      | (None, None) \<Rightarrow> (k, None))
               in (upd_node s a (\<lambda>n. n\<lparr>parentClippingRect := parentClippingRect',
                                         clippingRect := result\<rparr>))\<lparr>nextRect := k'\<rparr>)"

subsection \<open>The per-frame recomputation\<close>

text \<open>
  \<open>update(delta, parentClippingRect)\<close>. With assertions off, a missing local transform
  reaches \<open>Matrix3d.copy\<close> or \<open>multiply\<close>, which read the coefficients of \<open>undefined\<close>.
\<close>

definition update_children :: "bool \<Rightarrow> state \<Rightarrow> addr \<Rightarrow> error + state" where
  "update_children asserts s a =
     (if updateMask (heap s a) AND 1 \<noteq> 0
      then ebind (tree_getNodes asserts s (Some (childrenIds (heap s a)))) (\<lambda>cs.
             Inr (upd_node s a (\<lambda>n. n\<lparr>children := cs\<rparr>)))
      else Inr s)"

definition update_globalTransform :: "bool \<Rightarrow> state \<Rightarrow> addr \<Rightarrow> error + state" where
  "update_globalTransform asserts s a =
     ebind (CoreNode_parent asserts s a) (\<lambda>(parent, s1).
       let parentGlobalTransform =
             (case parent of None \<Rightarrow> None | Some pa \<Rightarrow> globalTransform (heap s1 pa))
       in case localTransform (heap s1 a) of
            None \<Rightarrow> Inl TypeError
          | Some lt \<Rightarrow>
              (case parentGlobalTransform of
                 Some pgt \<Rightarrow>
                   Inr (upd_node s1 a (\<lambda>n. n\<lparr>globalTransform :=
                          Some (multiply (Matrix3d_copy pgt) lt)\<rparr>))
               | None \<Rightarrow>
                   Inr (upd_node s1 a (\<lambda>n. n\<lparr>globalTransform := Some (Matrix3d_copy lt)\<rparr>))))"

definition CoreNode_update ::
  "nat \<Rightarrow> bool \<Rightarrow> state \<Rightarrow> addr \<Rightarrow> real \<Rightarrow> rect_ref option \<Rightarrow> error + state" where
  "CoreNode_update depth asserts s a delta parentClippingRect' =
     ebind (assertTruthy asserts (localTransform (heap s a) \<noteq> None)) (\<lambda>_.
     ebind (update_children asserts s a) (\<lambda>s1.
     ebind (if recalculationType (heap s1 a) AND 2 \<noteq> 0
            then updateLocalTransform asserts s1 a else Inr s1) (\<lambda>s2.
     ebind (if recalculationType (heap s2 a) AND 4 \<noteq> 0
            then updateScaleRotateTransform asserts s2 a else Inr s2) (\<lambda>s3.
     ebind (update_globalTransform asserts s3 a) (\<lambda>s4.
       let s5 = calculateClippingRect s4 a parentClippingRect'
       in ebind (if recalculationType (heap s5 a) AND 8 \<noteq> 0
                 then sortChildren depth asserts s5 a else Inr s5) (\<lambda>s6.
            Inr (upd_node s6 a (\<lambda>n. n\<lparr>hasUpdates := False, updateMask := 0,
                                        recalculationType := 0\<rparr>))))))))"

subsection \<open>Property setters\<close>

text \<open>Setters that compare the new value with the stored one before writing.\<close>

definition set_x :: "state \<Rightarrow> addr \<Rightarrow> real \<Rightarrow> state" where
  "set_x s a v =
     (if x (props (heap s a)) \<noteq> v
      then setRecalculationType (upd_props s a (\<lambda>p. p\<lparr>x := v\<rparr>)) a 2
      else s)"

definition set_y :: "state \<Rightarrow> addr \<Rightarrow> real \<Rightarrow> state" where
  "set_y s a v =
     (if y (props (heap s a)) \<noteq> v
      then setRecalculationType (upd_props s a (\<lambda>p. p\<lparr>y := v\<rparr>)) a 2
      else s)"

definition set_width :: "state \<Rightarrow> addr \<Rightarrow> real \<Rightarrow> state" where
  "set_width s a v =
     (if width (props (heap s a)) \<noteq> v
      then setRecalculationType (upd_props s a (\<lambda>p. p\<lparr>width := v\<rparr>)) a 2
      else s)"

definition set_height :: "state \<Rightarrow> addr \<Rightarrow> real \<Rightarrow> state" where
  "set_height s a v =
     (if height (props (heap s a)) \<noteq> v
      then setRecalculationType (upd_props s a (\<lambda>p. p\<lparr>height := v\<rparr>)) a 2
      else s)"

definition set_scaleX :: "state \<Rightarrow> addr \<Rightarrow> real \<Rightarrow> state" where
  "set_scaleX s a v =
     (if scaleX (props (heap s a)) \<noteq> v
      then setRecalculationType (upd_props s a (\<lambda>p. p\<lparr>scaleX := v\<rparr>)) a 4
      else s)"

definition set_scaleY :: "state \<Rightarrow> addr \<Rightarrow> real \<Rightarrow> state" where
  "set_scaleY s a v =
     (if scaleY (props (heap s a)) \<noteq> v
      then setRecalculationType (upd_props s a (\<lambda>p. p\<lparr>scaleY := v\<rparr>)) a 4
      else s)"

definition set_rotation :: "state \<Rightarrow> addr \<Rightarrow> real \<Rightarrow> state" where
  "set_rotation s a v =
     (if rotation (props (heap s a)) \<noteq> v
      then setRecalculationType (upd_props s a (\<lambda>p. p\<lparr>rotation := v\<rparr>)) a 2
      else s)"

text \<open>Setters that write and flag unconditionally.\<close>

definition set_mountX :: "state \<Rightarrow> addr \<Rightarrow> real \<Rightarrow> state" where
  "set_mountX s a v = setRecalculationType (upd_props s a (\<lambda>p. p\<lparr>mountX := v\<rparr>)) a 2"

definition set_mountY :: "state \<Rightarrow> addr \<Rightarrow> real \<Rightarrow> state" where
  "set_mountY s a v = setRecalculationType (upd_props s a (\<lambda>p. p\<lparr>mountY := v\<rparr>)) a 2"

definition set_pivotX :: "state \<Rightarrow> addr \<Rightarrow> real \<Rightarrow> state" where
  "set_pivotX s a v = setRecalculationType (upd_props s a (\<lambda>p. p\<lparr>pivotX := v\<rparr>)) a 2"

definition set_pivotY :: "state \<Rightarrow> addr \<Rightarrow> real \<Rightarrow> state" where
  "set_pivotY s a v = setRecalculationType (upd_props s a (\<lambda>p. p\<lparr>pivotY := v\<rparr>)) a 2"

definition set_alpha :: "state \<Rightarrow> addr \<Rightarrow> real \<Rightarrow> state" where
  "set_alpha s a v = setRecalculationType (upd_props s a (\<lambda>p. p\<lparr>alpha := v\<rparr>)) a 4"

definition set_colorTl :: "state \<Rightarrow> addr \<Rightarrow> real \<Rightarrow> state" where
  "set_colorTl s a v = setRecalculationType (upd_props s a (\<lambda>p. p\<lparr>colorTl := v\<rparr>)) a 2"

definition set_colorTr :: "state \<Rightarrow> addr \<Rightarrow> real \<Rightarrow> state" where
  "set_colorTr s a v = setRecalculationType (upd_props s a (\<lambda>p. p\<lparr>colorTr := v\<rparr>)) a 2"

definition set_colorBl :: "state \<Rightarrow> addr \<Rightarrow> real \<Rightarrow> state" where
  "set_colorBl s a v = setRecalculationType (upd_props s a (\<lambda>p. p\<lparr>colorBl := v\<rparr>)) a 2"

definition set_colorBr :: "state \<Rightarrow> addr \<Rightarrow> real \<Rightarrow> state" where
  "set_colorBr s a v = setRecalculationType (upd_props s a (\<lambda>p. p\<lparr>colorBr := v\<rparr>)) a 2"

definition set_scale :: "state \<Rightarrow> addr \<Rightarrow> real \<Rightarrow> state" where
  "set_scale s a v = set_scaleY (set_scaleX s a v) a v"

definition set_mount :: "state \<Rightarrow> addr \<Rightarrow> real \<Rightarrow> state" where
  "set_mount s a v =
     setRecalculationType (upd_props s a (\<lambda>p. p\<lparr>mountX := v, mountY := v, mount := v\<rparr>)) a 2"

definition set_pivot :: "state \<Rightarrow> addr \<Rightarrow> real \<Rightarrow> state" where
  "set_pivot s a v =
     (if pivotX (props (heap s a)) \<noteq> v \<or> pivotY (props (heap s a)) \<noteq> v
      then setRecalculationType (upd_props s a (\<lambda>p. p\<lparr>pivotX := v, pivotY := v\<rparr>)) a 2
      else s)"

definition set_clipping :: "state \<Rightarrow> addr \<Rightarrow> bool \<Rightarrow> state" where
  "set_clipping s a v =
     setRecalculationType
       (upd_node (upd_props s a (\<lambda>p. p\<lparr>clipping := v\<rparr>)) a (\<lambda>n. n\<lparr>clippingRect := None\<rparr>)) a 4"

definition set_color :: "state \<Rightarrow> addr \<Rightarrow> real \<Rightarrow> state" where
  "set_color s a v =
     (let p = props (heap s a);
          s1 = (if colorTl p \<noteq> v \<or> colorTr p \<noteq> v \<or> colorBl p \<noteq> v \<or> colorBr p \<noteq> v
                then set_colorBr (set_colorBl (set_colorTr (set_colorTl s a v) a v) a v) a v
                else s)
      in setRecalculationType (upd_props s1 a (\<lambda>p. p\<lparr>color := v\<rparr>)) a 2)"

definition set_colorTop :: "state \<Rightarrow> addr \<Rightarrow> real \<Rightarrow> state" where
  "set_colorTop s a v =
     (let p = props (heap s a);
          s1 = (if colorTl p \<noteq> v \<or> colorTr p \<noteq> v
                then set_colorTr (set_colorTl s a v) a v else s)
      in setRecalculationType (upd_props s1 a (\<lambda>p. p\<lparr>colorTop := v\<rparr>)) a 2)"

definition set_colorBottom :: "state \<Rightarrow> addr \<Rightarrow> real \<Rightarrow> state" where
  "set_colorBottom s a v =
     (let p = props (heap s a);
          s1 = (if colorBl p \<noteq> v \<or> colorBr p \<noteq> v
                then set_colorBr (set_colorBl s a v) a v else s)
      in setRecalculationType (upd_props s1 a (\<lambda>p. p\<lparr>colorBottom := v\<rparr>)) a 2)"

definition set_colorLeft :: "state \<Rightarrow> addr \<Rightarrow> real \<Rightarrow> state" where
  "set_colorLeft s a v =
     (let p = props (heap s a);
          s1 = (if colorTl p \<noteq> v \<or> colorBl p \<noteq> v
                then set_colorBl (set_colorTl s a v) a v else s)
      in setRecalculationType (upd_props s1 a (\<lambda>p. p\<lparr>colorLeft := v\<rparr>)) a 2)"

definition set_colorRight :: "state \<Rightarrow> addr \<Rightarrow> real \<Rightarrow> state" where
  "set_colorRight s a v =
     (let p = props (heap s a);
          s1 = (if colorTr p \<noteq> v \<or> colorBr p \<noteq> v
                then set_colorBr (set_colorTr s a v) a v else s)
      in setRecalculationType (upd_props s1 a (\<lambda>p. p\<lparr>colorRight := v\<rparr>)) a 2)"

definition set_zIndexLocked :: "state \<Rightarrow> addr \<Rightarrow> real \<Rightarrow> state" where
  "set_zIndexLocked s a v = upd_props s a (\<lambda>p. p\<lparr>zIndexLocked := v\<rparr>)"

definition set_zIndex :: "state \<Rightarrow> addr \<Rightarrow> real \<Rightarrow> state" where
  "set_zIndex s a v = setRecalculationType (upd_props s a (\<lambda>p. p\<lparr>zIndex := v\<rparr>)) a 8"

subsection \<open>Reparenting\<close>

text \<open>
  The setter \<open>parent\<close>. \<open>this.parentId === newParent?.id\<close> holds only when both are the
  same number (\<open>null === undefined\<close> is false). \<open>if (this.parentId)\<close> skips the id \<open>0\<close>
  as well as \<open>null\<close>. With assertions off, an old parent that the registry does not
  resolve is \<open>undefined\<close> and reading its \<open>childrenIds\<close> is a \<open>TypeError\<close>.
\<close>

definition detach_from_old_parent :: "bool \<Rightarrow> state \<Rightarrow> addr \<Rightarrow> error + state" where
  "detach_from_old_parent asserts s a =
     (if falsy_id (parentId (heap s a)) then Inr s
      else ebind (tree_get asserts s (parentId (heap s a))) (\<lambda>oldParent.
           ebind (assertTruthy asserts (oldParent \<noteq> None)) (\<lambda>_.
             case oldParent of
               None \<Rightarrow> Inl TypeError
             | Some op \<Rightarrow>
                 let this_id = id' (props (heap s a));
                     s1 = upd_node s op (\<lambda>n. n\<lparr>childrenIds :=
                            filter (\<lambda>i. i \<noteq> this_id) (childrenIds n)\<rparr>);
                     s2 = setHasUpdates s1 op
                 in Inr (setChildrenHasUpdates s2 op))))"

definition attach_to_new_parent :: "state \<Rightarrow> addr \<Rightarrow> addr option \<Rightarrow> state" where
  "attach_to_new_parent s a newParent =
     (case newParent of
        None \<Rightarrow> s
      | Some np \<Rightarrow>
          let this_id = id' (props (heap s a));
              s1 = upd_node s np (\<lambda>n. n\<lparr>childrenIds := childrenIds n @ [this_id]\<rparr>);
              s2 = setHasUpdates s1 np
          in setChildrenHasUpdates s2 np)"

definition set_parent :: "bool \<Rightarrow> state \<Rightarrow> addr \<Rightarrow> addr option \<Rightarrow> error + state" where
  "set_parent asserts s a newParent =
     (let newId = map_option (\<lambda>np. id' (props (heap s np))) newParent
      in if parentId (heap s a) \<noteq> None \<and> parentId (heap s a) = newId then Inr s
         else ebind (detach_from_old_parent asserts s a) (\<lambda>s1.
                let s2 = upd_node s1 a (\<lambda>n. n\<lparr>parentId := newId\<rparr>);
                    s3 = attach_to_new_parent s2 a newParent;
                    s4 = upd_node s3 a (\<lambda>n. n\<lparr>parentNode := newParent\<rparr>)
                in Inr (setRecalculationType s4 a 8)))"

subsection \<open>Construction\<close>

text \<open>\<open>new CoreNode(stage, props)\<close>, the new object being stored at address \<open>a\<close>.\<close>

definition CoreNode_new :: "bool \<Rightarrow> state \<Rightarrow> addr \<Rightarrow> CoreNodeProps \<Rightarrow> error + state" where
  "CoreNode_new asserts s a p =
     (let n = \<lparr>props = p, recalculationType = 6, hasUpdates = False,
               globalTransform = None, scaleRotateTransform = None, localTransform = None,
               clippingRect = None, parentClippingRect = None,
               parentId = None, childrenIds = [], isComplex = False,
               updateMask = 0, children = [], parentNode = None\<rparr>;
          s1 = s\<lparr>heap := (heap s)(a := n)\<rparr>
      in ebind (updateScaleRotateTransform asserts s1 a) (\<lambda>s2. Inr (tree_add s2 a)))"

subsection \<open>Primitive extraction\<close>

record Quad =
  q_width :: real
  q_height :: real
  q_colorTl :: real
  q_colorTr :: real
  q_colorBl :: real
  q_colorBr :: real
  q_texture :: "nat option"
  q_textureOptions :: "nat option"
  q_zIndex :: real
  q_shader :: "nat option"
  q_shaderProps :: "nat option"
  q_alpha :: real
  q_clippingRect :: "rect_ref option"
  q_tx :: real
  q_ty :: real
  q_ta :: real
  q_tb :: real
  q_tc :: real
  q_td :: real

text \<open>\<open>renderQuads(renderer)\<close>: the result is the quad handed to \<open>renderer.addQuad\<close>.
  With assertions off, a missing global transform is read as \<open>undefined.tx\<close>.\<close>

definition renderQuads :: "nat \<Rightarrow> bool \<Rightarrow> state \<Rightarrow> addr \<Rightarrow> error + (Quad \<times> state)" where
  "renderQuads depth asserts s a =
     (let p = props (heap s a)
      in ebind (CoreNode_zIndex depth asserts s a) (\<lambda>(z, s1).
         ebind (CoreNode_worldAlpha depth asserts s1 a) (\<lambda>(worldAlpha, s2).
           let gt' = globalTransform (heap s2 a); clippingRect' = clippingRect (heap s2 a)
           in ebind (assertTruthy asserts (gt' \<noteq> None)) (\<lambda>_.
                case gt' of
                  None \<Rightarrow> Inl TypeError
                | Some gt \<Rightarrow>
                    Inr (\<lparr>q_width = width p, q_height = height p,
                          q_colorTl = colorTl p, q_colorTr = colorTr p,
                          q_colorBl = colorBl p, q_colorBr = colorBr p,
                          q_texture = texture p, q_textureOptions = textureOptions p,
                          q_zIndex = z, q_shader = shader p, q_shaderProps = shaderProps p,
                          q_alpha = worldAlpha, q_clippingRect = clippingRect',
                          q_tx = tx gt, q_ty = ty gt, q_ta = ta gt, q_tb = tb gt,
                          q_tc = tc gt, q_td = td gt\<rparr>, s2)))))"

section \<open>Animations (core/animations/CoreAnimation)\<close>

text \<open>
  Modelled from the spec: \<open>INodeAnimatableProps\<close> (main-api/INode.js is not among the
  sources): the names of the numeric properties of a node that an animation may target,
  namely position, size, scale, rotation, mount, pivot, opacity and the colors.
\<close>

datatype animProp =
    P_x
  | P_y
  | P_width
  | P_height
  | P_alpha
  | P_color
  | P_colorTop
  | P_colorBottom
  | P_colorLeft
  | P_colorRight
  | P_colorTl
  | P_colorTr
  | P_colorBl
  | P_colorBr
  | P_scale
  | P_scaleX
  | P_scaleY
  | P_mount
  | P_mountX
  | P_mountY
  | P_pivot
  | P_pivotX
  | P_pivotY
  | P_rotation

text \<open>\<open>propName.indexOf('color') !== -1\<close>: the names that contain \<open>color\<close>.\<close>

fun is_color_prop :: "animProp \<Rightarrow> bool" where
  "is_color_prop P_color = True"
| "is_color_prop P_colorTop = True"
| "is_color_prop P_colorBottom = True"
| "is_color_prop P_colorLeft = True"
| "is_color_prop P_colorRight = True"
| "is_color_prop P_colorTl = True"
| "is_color_prop P_colorTr = True"
| "is_color_prop P_colorBl = True"
| "is_color_prop P_colorBr = True"
| "is_color_prop _ = False"

text \<open>\<open>node[propName]\<close> as a read: the getters of \<open>CoreNode\<close>; \<open>scale\<close> reads
  \<open>scaleX\<close>.\<close>

fun CoreNode_get :: "state \<Rightarrow> addr \<Rightarrow> animProp \<Rightarrow> real" where
  "CoreNode_get s a P_x = x (props (heap s a))"
| "CoreNode_get s a P_y = y (props (heap s a))"
| "CoreNode_get s a P_width = width (props (heap s a))"
| "CoreNode_get s a P_height = height (props (heap s a))"
| "CoreNode_get s a P_alpha = alpha (props (heap s a))"
| "CoreNode_get s a P_color = color (props (heap s a))"
| "CoreNode_get s a P_colorTop = colorTop (props (heap s a))"
| "CoreNode_get s a P_colorBottom = colorBottom (props (heap s a))"
| "CoreNode_get s a P_colorLeft = colorLeft (props (heap s a))"
| "CoreNode_get s a P_colorRight = colorRight (props (heap s a))"
| "CoreNode_get s a P_colorTl = colorTl (props (heap s a))"
| "CoreNode_get s a P_colorTr = colorTr (props (heap s a))"
| "CoreNode_get s a P_colorBl = colorBl (props (heap s a))"
| "CoreNode_get s a P_colorBr = colorBr (props (heap s a))"
| "CoreNode_get s a P_scale = scaleX (props (heap s a))"
| "CoreNode_get s a P_scaleX = scaleX (props (heap s a))"
| "CoreNode_get s a P_scaleY = scaleY (props (heap s a))"
| "CoreNode_get s a P_mount = mount (props (heap s a))"
| "CoreNode_get s a P_mountX = mountX (props (heap s a))"
| "CoreNode_get s a P_mountY = mountY (props (heap s a))"
| "CoreNode_get s a P_pivot = pivot (props (heap s a))"
| "CoreNode_get s a P_pivotX = pivotX (props (heap s a))"
| "CoreNode_get s a P_pivotY = pivotY (props (heap s a))"
| "CoreNode_get s a P_rotation = rotation (props (heap s a))"

text \<open>\<open>node[propName] = value\<close>: the setters of \<open>CoreNode\<close>.\<close>

fun CoreNode_set :: "state \<Rightarrow> addr \<Rightarrow> animProp \<Rightarrow> real \<Rightarrow> state" where
  "CoreNode_set s a P_x v = set_x s a v"
| "CoreNode_set s a P_y v = set_y s a v"
| "CoreNode_set s a P_width v = set_width s a v"
| "CoreNode_set s a P_height v = set_height s a v"
| "CoreNode_set s a P_alpha v = set_alpha s a v"
| "CoreNode_set s a P_color v = set_color s a v"
| "CoreNode_set s a P_colorTop v = set_colorTop s a v"
| "CoreNode_set s a P_colorBottom v = set_colorBottom s a v"
| "CoreNode_set s a P_colorLeft v = set_colorLeft s a v"
| "CoreNode_set s a P_colorRight v = set_colorRight s a v"
| "CoreNode_set s a P_colorTl v = set_colorTl s a v"
| "CoreNode_set s a P_colorTr v = set_colorTr s a v"
| "CoreNode_set s a P_colorBl v = set_colorBl s a v"
| "CoreNode_set s a P_colorBr v = set_colorBr s a v"
| "CoreNode_set s a P_scale v = set_scale s a v"
| "CoreNode_set s a P_scaleX v = set_scaleX s a v"
| "CoreNode_set s a P_scaleY v = set_scaleY s a v"
| "CoreNode_set s a P_mount v = set_mount s a v"
| "CoreNode_set s a P_mountX v = set_mountX s a v"
| "CoreNode_set s a P_mountY v = set_mountY s a v"
| "CoreNode_set s a P_pivot v = set_pivot s a v"
| "CoreNode_set s a P_pivotX v = set_pivotX s a v"
| "CoreNode_set s a P_pivotY v = set_pivotY s a v"
| "CoreNode_set s a P_rotation v = set_rotation s a v"

datatype StopMethod = Reverse | Reset | NoStop

text \<open>\<open>Partial<AnimationSettings>\<close>: an unset member is \<open>None\<close>. Only the truthiness of
  \<open>loop\<close> is read, so it is a boolean (unset reads as false).\<close>

record AnimationSettings =
  duration :: "real option"
  delay :: "real option"
  easing :: "string option"
  loop :: bool
  repeat :: "real option"
  repeatDelay :: "real option"
  stopMethod :: "StopMethod option"

text \<open>The field \<open>props\<close> of the animation is named \<open>props'\<close> here. The objects \<open>props\<close>
  and \<open>propStartValues\<close> are association lists in key order.\<close>

record CoreAnimation =
  node :: addr
  props' :: "(animProp \<times> real) list"
  settings :: AnimationSettings
  propStartValues :: "(animProp \<times> real) list"
  restoreValues :: "(animProp \<times> real) list"
  progress :: real
  timingFunction :: "real \<Rightarrow> real option"
  propsList :: "animProp list"

datatype event = Finished

definition truthy_easing :: "string option \<Rightarrow> bool" where
  "truthy_easing e = (case e of None \<Rightarrow> False | Some str \<Rightarrow> str \<noteq> [])"

text \<open>
  The constructor. \<open>getTimingFunction\<close> (core/utils.js) is not among the sources and is
  a parameter.
\<close>

definition CoreAnimation_new ::
  "(string \<Rightarrow> real \<Rightarrow> real option) \<Rightarrow> state \<Rightarrow> addr \<Rightarrow> (animProp \<times> real) list
     \<Rightarrow> AnimationSettings \<Rightarrow> CoreAnimation" where
  "CoreAnimation_new getTimingFunction s nd ps st =
     (let keys = map fst ps
      in \<lparr>node = nd, props' = ps, settings = st,
          propStartValues =
            foldl (\<lambda>m propName. AList.update propName (CoreNode_get s nd propName) m) [] keys,
          restoreValues = [],
          progress = 0,
          timingFunction =
            (case easing st of
               Some str \<Rightarrow> if str \<noteq> [] then getTimingFunction str else (\<lambda>t. Some t)
             | None \<Rightarrow> (\<lambda>t. Some t)),
          propsList = keys\<rparr>)"

definition applyEasing :: "CoreAnimation \<Rightarrow> real \<Rightarrow> real \<Rightarrow> real \<Rightarrow> real" where
  "applyEasing an p st e = js_or_undef (timingFunction an p) p * (e - st) + st"

text \<open>
  One round of the loop over \<open>propsList\<close> in \<open>update\<close>. \<open>mergeColorProgress\<close>
  (utils.js) is not among the sources and is a parameter. A name that \<open>props\<close> or
  \<open>propStartValues\<close> lacks reads as \<open>undefined\<close>; the constructor and \<open>reverse\<close> never
  build such an animation.
\<close>

definition update_prop ::
  "(real \<Rightarrow> real \<Rightarrow> real \<Rightarrow> real) \<Rightarrow> CoreAnimation \<Rightarrow> state \<Rightarrow> animProp \<Rightarrow> error + state" where
  "update_prop mergeColorProgress an s propName =
     (case (map_of (props' an) propName, map_of (propStartValues an) propName) of
        (Some propValue, Some startValue) \<Rightarrow>
          (let endValue = propValue
           in if is_color_prop propName
              then (if startValue = endValue
                    then Inr (CoreNode_set s (node an) propName startValue)
                    else if truthy_easing (easing (settings an))
                    then Inr (CoreNode_set s (node an) propName
                           (mergeColorProgress startValue endValue
                              (js_or_undef (timingFunction an (progress an)) (progress an))))
                    else Inr (CoreNode_set s (node an) propName
                           (mergeColorProgress startValue endValue (progress an))))
              else if truthy_easing (easing (settings an))
              then Inr (CoreNode_set s (node an) propName
                     (applyEasing an (progress an) startValue endValue))
              else Inr (CoreNode_set s (node an) propName
                     (startValue + (endValue - startValue) * progress an)))
      | _ \<Rightarrow> Inl UndefinedValue)"

fun update_loop ::
  "(real \<Rightarrow> real \<Rightarrow> real \<Rightarrow> real) \<Rightarrow> CoreAnimation \<Rightarrow> state \<Rightarrow> animProp list \<Rightarrow> error + state" where
  "update_loop mergeColorProgress an s [] = Inr s"
| "update_loop mergeColorProgress an s (propName # rest) =
     ebind (update_prop mergeColorProgress an s propName) (\<lambda>s1.
       update_loop mergeColorProgress an s1 rest)"

text \<open>\<open>update(dt)\<close>: the new state, the animation and the events emitted.
  \<open>!duration\<close> holds for an unset duration and for \<open>0\<close>.\<close>

definition CoreAnimation_update ::
  "(real \<Rightarrow> real \<Rightarrow> real \<Rightarrow> real) \<Rightarrow> state \<Rightarrow> CoreAnimation \<Rightarrow> real
     \<Rightarrow> error + (state \<times> CoreAnimation \<times> event list)" where
  "CoreAnimation_update mergeColorProgress s an dt =
     (case duration (settings an) of
        None \<Rightarrow> Inr (s, an, [Finished])
      | Some d \<Rightarrow>
          if d = 0 then Inr (s, an, [Finished])
          else
            let an1 = an\<lparr>progress := progress an + dt / d\<rparr>
            in if progress an1 > 1
               then Inr (s, an1\<lparr>progress := (if loop (settings an) then 0 else 1)\<rparr>,
                         [Finished])
               else ebind (update_loop mergeColorProgress an1 s (propsList an1)) (\<lambda>s1.
                      Inr (s1, an1, [])))"

definition CoreAnimation_reset ::
  "(real \<Rightarrow> real \<Rightarrow> real \<Rightarrow> real) \<Rightarrow> state \<Rightarrow> CoreAnimation
     \<Rightarrow> error + (state \<times> CoreAnimation \<times> event list)" where
  "CoreAnimation_reset mergeColorProgress s an =
     CoreAnimation_update mergeColorProgress s (an\<lparr>progress := 0\<rparr>) 0"

fun restore_loop :: "CoreAnimation \<Rightarrow> state \<Rightarrow> animProp list \<Rightarrow> error + state" where
  "restore_loop an s [] = Inr s"
| "restore_loop an s (propName # rest) =
     (case map_of (propStartValues an) propName of
        None \<Rightarrow> Inl UndefinedValue
      | Some v \<Rightarrow> restore_loop an (CoreNode_set s (node an) propName v) rest)"

definition CoreAnimation_restore ::
  "(real \<Rightarrow> real \<Rightarrow> real \<Rightarrow> real) \<Rightarrow> state \<Rightarrow> CoreAnimation
     \<Rightarrow> error + (state \<times> CoreAnimation \<times> event list)" where
  "CoreAnimation_restore mergeColorProgress s an =
     ebind (CoreAnimation_reset mergeColorProgress s an) (\<lambda>(s1, an1, evs).
       ebind (restore_loop an1 s1 (map fst (props' an1))) (\<lambda>s2. Inr (s2, an1, evs)))"

text \<open>\<open>reverse()\<close>: the loop swaps target and start value name by name.\<close>

fun reverse_loop :: "CoreAnimation \<Rightarrow> animProp list \<Rightarrow> error + CoreAnimation" where
  "reverse_loop an [] = Inr an"
| "reverse_loop an (propName # rest) =
     (case (map_of (props' an) propName, map_of (propStartValues an) propName) of
        (Some startValue, Some endValue) \<Rightarrow>
          reverse_loop
            (an\<lparr>props' := AList.update propName endValue (props' an),
                propStartValues := AList.update propName startValue (propStartValues an)\<rparr>)
            rest
      | _ \<Rightarrow> Inl UndefinedValue)"

definition CoreAnimation_reverse :: "CoreAnimation \<Rightarrow> error + CoreAnimation" where
  "CoreAnimation_reverse an =
     (let an1 = an\<lparr>progress := 0\<rparr>
      in ebind (reverse_loop an1 (map fst (props' an1))) (\<lambda>an2.
           if \<not> loop (settings an2)
           then Inr (an2\<lparr>settings := (settings an2)\<lparr>stopMethod := Some NoStop\<rparr>\<rparr>)
           else Inr an2))"

section \<open>Auxiliary notions\<close>

text \<open>
  The getters \<open>parent\<close>, \<open>zIndex\<close> and \<open>worldAlpha\<close> change the state only by
  refreshing cached parent references. \<open>refreshed asserts s s1\<close> says that \<open>s1\<close> differs
  from \<open>s\<close> by such refreshes only: every node is unchanged, or had bit 2 of its
  \<open>updateMask\<close> set and now caches what the registry resolves its \<open>parentId\<close> to.
\<close>

definition node_refreshed :: "bool \<Rightarrow> state \<Rightarrow> CoreNode \<Rightarrow> CoreNode \<Rightarrow> bool" where
  "node_refreshed asserts s n n1 =
     (n1 = n \<or>
      (updateMask n AND 2 \<noteq> 0 \<and> tree_get asserts s (parentId n) = Inr (parentNode n1) \<and>
       n1 = n\<lparr>parentNode := parentNode n1\<rparr>))"

definition refreshed :: "bool \<Rightarrow> state \<Rightarrow> state \<Rightarrow> bool" where
  "refreshed asserts s s1 =
     (tree_map s1 = tree_map s \<and> dirtyNodes s1 = dirtyNodes s \<and> nextRect s1 = nextRect s \<and>
      (\<forall>b. node_refreshed asserts s (heap s b) (heap s1 b)))"


text \<open>
  \<open>synced s t\<close>: the states agree except for cached parent references that the getter
  \<open>parent\<close> would refresh anyway (bit 2 of \<open>updateMask\<close> set). The getters return the
  same values in synced states.
\<close>

definition synced :: "state \<Rightarrow> state \<Rightarrow> bool" where
  "synced s t =
     (tree_map t = tree_map s \<and>
      (\<forall>b. heap t b = (heap s b)\<lparr>parentNode := parentNode (heap t b)\<rparr> \<and>
           (updateMask (heap s b) AND 2 = 0 \<longrightarrow> parentNode (heap t b) = parentNode (heap s b))))"


text \<open>\<open>flagged s a t\<close>: node \<open>a\<close> has \<open>hasUpdates\<close> set, has the bits \<open>t\<close> in its
  \<open>recalculationType\<close>, and is in the registry's dirty set.\<close>

definition flagged :: "state \<Rightarrow> addr \<Rightarrow> nat \<Rightarrow> bool" where
  "flagged s a t =
     (hasUpdates (heap s a) \<and> recalculationType (heap s a) AND t = t \<and>
      map_of (dirtyNodes s) (id' (props (heap s a))) = Some a)"


text \<open>The world alpha of the quad that \<open>renderQuads\<close> hands over.\<close>

definition quad_alpha :: "error + (Quad \<times> state) \<Rightarrow> real option" where
  "quad_alpha r = (case r of Inr (q, _) \<Rightarrow> Some (q_alpha q) | Inl _ \<Rightarrow> None)"


text \<open>\<open>keys_present an\<close>: every name in \<open>propsList\<close> has a target and a start value,
  as it has in every animation built by the constructor.\<close>

definition keys_present :: "CoreAnimation \<Rightarrow> bool" where
  "keys_present an =
     (\<forall>p \<in> set (propsList an).
        map_of (props' an) p \<noteq> None \<and> map_of (propStartValues an) p \<noteq> None)"


section \<open>Example scenes\<close>

text \<open>
  Concrete scenes, built by running the model. \<open>run\<close> takes the state out of a
  successful call. \<open>three_nodes\<close> holds the nodes 1, 2 and 3 (stored at the addresses 1,
  2 and 3); in \<open>child_added\<close> node 3 has been made a child of node 1, and in
  \<open>child_moved\<close> it has then been moved to node 2. \<open>family\<close> holds node 1 at
  \<open>x = 10\<close> with its child node 2 at \<open>x = 50\<close>; in \<open>family_scene\<close> node 1 has been
  recomputed.
\<close>

definition default_props :: CoreNodeProps where
  "default_props =
     \<lparr>id' = 0, x = 0, y = 0, width = 0, height = 0, alpha = 1, clipping = False,
      color = 0, colorTop = 0, colorBottom = 0, colorLeft = 0, colorRight = 0,
      colorTl = 0, colorTr = 0, colorBl = 0, colorBr = 0, zIndex = 0,
      texture = None, textureOptions = None, shader = None, shaderProps = None,
      zIndexLocked = 0, scaleX = 1, scaleY = 1, mount = 0, mountX = 0, mountY = 0,
      pivot = 0, pivotX = 0, pivotY = 0, rotation = 0\<rparr>"

definition blank_node :: CoreNode where
  "blank_node =
     \<lparr>props = default_props, recalculationType = 6, hasUpdates = False,
      globalTransform = None, scaleRotateTransform = None, localTransform = None,
      clippingRect = None, parentClippingRect = None,
      parentId = None, childrenIds = [], isComplex = False,
      updateMask = 0, children = [], parentNode = None\<rparr>"

definition blank_heap :: "addr \<Rightarrow> CoreNode" where
  "blank_heap = (\<lambda>_. blank_node)"

definition state0 :: state where
  "state0 = \<lparr>heap = blank_heap, tree_map = [], dirtyNodes = [], nextRect = 0\<rparr>"

definition run :: "error + state \<Rightarrow> state" where
  "run r = (case r of Inr s \<Rightarrow> s | Inl _ \<Rightarrow> state0)"

definition three_nodes :: state where
  "three_nodes =
     run (CoreNode_new True
       (run (CoreNode_new True
          (run (CoreNode_new True state0 1 (default_props\<lparr>id' := 1\<rparr>)))
          2 (default_props\<lparr>id' := 2\<rparr>)))
       3 (default_props\<lparr>id' := 3\<rparr>))"

definition child_added :: state where
  "child_added = run (set_parent True three_nodes 3 (Some 1))"

definition child_moved :: state where
  "child_moved = run (set_parent True child_added 3 (Some 2))"

definition family :: state where
  "family =
     run (set_parent True
       (run (CoreNode_new True
          (run (CoreNode_new True state0 1 (default_props\<lparr>id' := 1, x := 10\<rparr>)))
          2 (default_props\<lparr>id' := 2, x := 50\<rparr>)))
       2 (Some 1))"

definition family_scene :: state where
  "family_scene = run (CoreNode_update 3 True family 1 0 None)"


text \<open>
  \<open>z_scene\<close>: node 1 with \<open>zIndex = 5\<close> and z-index locking on, and its child node 2
  with \<open>zIndex = 9\<close>. \<open>clean_scene\<close>: node 1 with default properties after its first
  recomputation, the dirty set cleared. \<open>rotated_scene\<close>: \<open>clean_scene\<close> after
  \<open>rotation = pi\<close> and the next recomputation. \<open>alpha_scene\<close>: node 1 with
  \<open>alpha = 0\<close> and its child node 2 with \<open>alpha = 1\<close>, both recomputed.
\<close>

definition z_scene :: state where
  "z_scene =
     run (set_parent True
       (run (CoreNode_new True
          (run (CoreNode_new True state0 1
             (default_props\<lparr>id' := 1, zIndex := 5, zIndexLocked := 1\<rparr>)))
          2 (default_props\<lparr>id' := 2, zIndex := 9\<rparr>)))
       2 (Some 1))"


definition clean_scene :: state where
  "clean_scene =
     tree_clearDirtyNodes
       (run (CoreNode_update 3 True
          (run (CoreNode_new True state0 1 (default_props\<lparr>id' := 1\<rparr>))) 1 0 None))"

definition rotated_scene :: state where
  "rotated_scene = run (CoreNode_update 3 True (set_rotation clean_scene 1 pi) 1 0 None)"

definition alpha_scene :: state where
  "alpha_scene =
     run (CoreNode_update 3 True
       (run (CoreNode_update 3 True
          (run (set_parent True
             (run (CoreNode_new True
                (run (CoreNode_new True state0 1 (default_props\<lparr>id' := 1, alpha := 0\<rparr>)))
                2 (default_props\<lparr>id' := 2, alpha := 1\<rparr>)))
             2 (Some 1)))
          1 0 None))
       2 0 None)"


text \<open>
  \<open>anim_x\<close>: an animation of \<open>x\<close> to 100 on node 1 of \<open>clean_scene\<close> (where \<open>x = 0\<close>),
  with duration 4, no easing and no loop. \<open>no_easing\<close> and \<open>no_merge\<close> stand for the
  imported \<open>getTimingFunction\<close> and \<open>mergeColorProgress\<close>, which this animation never
  calls.
\<close>

definition no_easing :: "string \<Rightarrow> real \<Rightarrow> real option" where
  "no_easing name t = Some t"

definition no_merge :: "real \<Rightarrow> real \<Rightarrow> real \<Rightarrow> real" where
  "no_merge st e p = st"

definition plain_settings :: AnimationSettings where
  "plain_settings =
     \<lparr>duration = Some 4, delay = None, easing = None, loop = False, repeat = None,
      repeatDelay = None, stopMethod = None\<rparr>"

definition anim_x :: CoreAnimation where
  "anim_x = CoreAnimation_new no_easing clean_scene 1 [(P_x, 100)] plain_settings"




section \<open>Basic facts\<close>

lemmas tree_defs = tree_add_def tree_get_def tree_remove_def tree_getAllNodes_def
  filter_Boolean_def tree_getNodes_def tree_markDirty_def assertTruthy_def ebind_def
lemmas node_defs = upd_node_def upd_props_def setHasUpdates_def setChildrenHasUpdates_def
  falsy_id_def setParentHasUpdates_def setRecalculationType_def CoreNode_parent_def
  updateLocalTransform_def updateScaleRotateTransform_def
  Matrix3d_multiply_def Matrix3d_translate_def Matrix3d_scale_def Matrix3d_rotate_def
  Matrix3d_copy_def multiply_def translate_def scale_def
  detach_from_old_parent_def attach_to_new_parent_def set_parent_def CoreNode_new_def
lemmas update_defs = CoreNode_update_def update_children_def update_globalTransform_def
  calculateClippingRect_def sortChildren_def same_rect_def
lemmas scene_defs = default_props_def blank_node_def blank_heap_def state0_def run_def
  three_nodes_def child_added_def child_moved_def family_def family_scene_def


lemma ebind_InrE:
  assumes "ebind m f = Inr r"
  obtains v where "m = Inr v" and "f v = Inr r"
  using assms by (cases m) (simp_all add: ebind_def)


lemma heap_upd_node [simp]: "heap (upd_node s a f) = (heap s)(a := f (heap s a))"
  by (simp add: upd_node_def)

lemma tree_map_upd_node [simp]: "tree_map (upd_node s a f) = tree_map s"
  by (simp add: upd_node_def)

lemma dirtyNodes_upd_node [simp]: "dirtyNodes (upd_node s a f) = dirtyNodes s"
  by (simp add: upd_node_def)

lemma nextRect_upd_node [simp]: "nextRect (upd_node s a f) = nextRect s"
  by (simp add: upd_node_def)

lemma heap_markDirty [simp]: "heap (tree_markDirty s a) = heap s"
  by (simp add: tree_markDirty_def)

lemma tree_map_markDirty [simp]: "tree_map (tree_markDirty s a) = tree_map s"
  by (simp add: tree_markDirty_def)

lemma nextRect_markDirty [simp]: "nextRect (tree_markDirty s a) = nextRect s"
  by (simp add: tree_markDirty_def)

lemma heap_setHasUpdates:
  "heap (setHasUpdates s a) = (heap s)(a := (heap s a)\<lparr>hasUpdates := True\<rparr>)"
  by (simp add: setHasUpdates_def)

lemma tree_map_setHasUpdates [simp]: "tree_map (setHasUpdates s a) = tree_map s"
  by (simp add: setHasUpdates_def)

lemma childrenIds_setHasUpdates [simp]:
  "childrenIds (heap (setHasUpdates s a) b) = childrenIds (heap s b)"
  by (simp add: heap_setHasUpdates)

lemma props_setHasUpdates [simp]:
  "props (heap (setHasUpdates s a) b) = props (heap s b)"
  by (simp add: heap_setHasUpdates)

lemma childrenIds_setChildrenHasUpdates [simp]:
  "childrenIds (heap (setChildrenHasUpdates s a) b) = childrenIds (heap s b)"
  by (simp add: setChildrenHasUpdates_def)

lemma props_setChildrenHasUpdates [simp]:
  "props (heap (setChildrenHasUpdates s a) b) = props (heap s b)"
  by (simp add: setChildrenHasUpdates_def)

lemma tree_map_setChildrenHasUpdates [simp]:
  "tree_map (setChildrenHasUpdates s a) = tree_map s"
  by (simp add: setChildrenHasUpdates_def)

lemma childrenIds_setParentHasUpdates [simp]:
  "childrenIds (heap (setParentHasUpdates s a) b) = childrenIds (heap s b)"
  by (simp add: setParentHasUpdates_def)

lemma childrenIds_setRecalculationType [simp]:
  "childrenIds (heap (setRecalculationType s a t) b) = childrenIds (heap s b)"
  by (simp add: setRecalculationType_def Let_def)


lemma getNodes_map_all:
  "\<forall>k\<in>set ids. map_of (tree_map s) k \<noteq> None \<Longrightarrow>
   getNodes_map asserts s ids = Inr (map (map_of (tree_map s)) ids)"
  by (induction ids) (auto simp: tree_get_def assertTruthy_def ebind_def)

lemma getNodes_map_off:
  "getNodes_map False s ids = Inr (map (map_of (tree_map s)) ids)"
  by (induction ids) (auto simp: tree_get_def assertTruthy_def ebind_def)

lemma getNodes_map_on:
  "getNodes_map True s ids =
     (if \<forall>k\<in>set ids. map_of (tree_map s) k \<noteq> None
      then Inr (map (map_of (tree_map s)) ids) else Inl AssertionFailed)"
  by (induction ids) (auto simp: tree_get_def assertTruthy_def ebind_def Let_def)

lemma getNodes_map_fault:
  "\<exists>k\<in>set ids. map_of (tree_map s) k = None \<Longrightarrow>
   getNodes_map True s ids = Inl AssertionFailed"
  by (simp add: getNodes_map_on)

lemma filter_Boolean_all:
  "\<forall>k\<in>set ids. m k \<noteq> None \<Longrightarrow> filter_Boolean (map m ids) = map (\<lambda>k. the (m k)) ids"
  by (induction ids) (auto simp: filter_Boolean_def)

lemma filter_Boolean_map_filter:
  "filter_Boolean (map m ids) = List.map_filter m ids"
  by (induction ids) (auto simp: filter_Boolean_def List.map_filter_def)


lemma node_refreshed_refl [simp]: "node_refreshed asserts s n n"
  by (simp add: node_refreshed_def)

lemma refreshed_refl [simp]: "refreshed asserts s s"
  by (simp add: refreshed_def)

lemma tree_get_cong: "tree_map s1 = tree_map s \<Longrightarrow> tree_get asserts s1 i = tree_get asserts s i"
  by (cases i) (simp_all add: tree_get_def)

lemma node_refreshed_trans:
  assumes tm: "tree_map s1 = tree_map s"
    and a: "node_refreshed asserts s n n1" and b: "node_refreshed asserts s1 n1 n2"
  shows "node_refreshed asserts s n n2"
proof (cases "n1 = n")
  case True
  with b tree_get_cong [OF tm] show ?thesis by (simp add: node_refreshed_def)
next
  case n1: False
  with a have m: "updateMask n AND 2 \<noteq> 0"
    and g: "tree_get asserts s (parentId n) = Inr (parentNode n1)"
    and e: "n1 = n\<lparr>parentNode := parentNode n1\<rparr>"
    by (simp_all add: node_refreshed_def)
  have pid: "parentId n1 = parentId n" by (subst e) simp
  show ?thesis
  proof (cases "n2 = n1")
    case True
    with a show ?thesis by simp
  next
    case False
    with b have g2: "tree_get asserts s1 (parentId n1) = Inr (parentNode n2)"
      and e2: "n2 = n1\<lparr>parentNode := parentNode n2\<rparr>"
      by (simp_all add: node_refreshed_def)
    from g g2 pid tree_get_cong [OF tm] have "parentNode n2 = parentNode n1" by simp
    with e2 e have "n2 = n1" by simp
    with a show ?thesis by simp
  qed
qed

lemma refreshed_trans:
  assumes "refreshed asserts s s1" and "refreshed asserts s1 s2"
  shows "refreshed asserts s s2"
proof -
  have tm: "tree_map s1 = tree_map s" using assms(1) by (simp add: refreshed_def)
  have "node_refreshed asserts s (heap s b) (heap s2 b)" for b
    using assms node_refreshed_trans [OF tm, of asserts "heap s b" "heap s1 b" "heap s2 b"]
    by (simp add: refreshed_def)
  with assms show ?thesis by (simp add: refreshed_def)
qed

lemma parent_refreshed:
  assumes "CoreNode_parent asserts s a = Inr (r, s1)"
  shows "refreshed asserts s s1"
proof (cases "updateMask (heap s a) AND 2 \<noteq> 0")
  case True
  with assms have g: "tree_get asserts s (parentId (heap s a)) = Inr r"
    and e: "s1 = upd_node s a (\<lambda>n. n\<lparr>parentNode := r\<rparr>)"
    by (simp_all add: CoreNode_parent_def ebind_def split: sum.splits)
  have "node_refreshed asserts s (heap s b) (heap s1 b)" for b
    using True g by (simp add: e node_refreshed_def)
  then show ?thesis by (simp add: refreshed_def e)
next
  case False
  with assms show ?thesis by (simp add: CoreNode_parent_def)
qed

lemma zIndex_refreshed:
  "CoreNode_zIndex depth asserts s a = Inr (z, s1) \<Longrightarrow> refreshed asserts s s1"
proof (induction depth arbitrary: s a z s1)
  case 0
  then show ?case by simp
next
  case (Suc depth)
  from Suc.prems obtain parent sp where p: "CoreNode_parent asserts s a = Inr (parent, sp)"
    by (auto simp: ebind_def split: sum.splits)
  have r1: "refreshed asserts s sp" using p by (rule parent_refreshed)
  show ?case
  proof (cases parent)
    case None
    with Suc.prems p r1 show ?thesis by (auto simp: ebind_def Let_def)
  next
    case (Some pa)
    with Suc.prems p obtain pz where q: "CoreNode_zIndex depth asserts sp pa = Inr (pz, s1)"
      by (auto simp: ebind_def Let_def split: sum.splits if_splits)
    from Suc.IH [OF q] r1 show ?thesis by (blast intro: refreshed_trans)
  qed
qed

lemma worldAlpha_refreshed:
  "CoreNode_worldAlpha depth asserts s a = Inr (w, s1) \<Longrightarrow> refreshed asserts s s1"
proof (induction depth arbitrary: s a w s1)
  case 0
  then show ?case by simp
next
  case (Suc depth)
  from Suc.prems obtain parent sp where p: "CoreNode_parent asserts s a = Inr (parent, sp)"
    by (auto simp: ebind_def split: sum.splits)
  have r1: "refreshed asserts s sp" using p by (rule parent_refreshed)
  show ?case
  proof (cases parent)
    case None
    with Suc.prems p r1 show ?thesis by (auto simp: ebind_def Let_def)
  next
    case (Some pa)
    with Suc.prems p obtain pw where q: "CoreNode_worldAlpha depth asserts sp pa = Inr (pw, s1)"
      by (auto simp: ebind_def Let_def split: sum.splits if_splits)
    from Suc.IH [OF q] r1 show ?thesis by (blast intro: refreshed_trans)
  qed
qed

lemma zIndex_keys_refreshed:
  "zIndex_keys depth asserts s cs = Inr (zs, s1) \<Longrightarrow>
     refreshed asserts s s1 \<and> length zs = length cs"
proof (induction cs arbitrary: s zs s1)
  case Nil
  then show ?case by simp
next
  case (Cons c cs)
  from Cons.prems obtain z sm zs' where
    a: "CoreNode_zIndex depth asserts s c = Inr (z, sm)" and
    b: "zIndex_keys depth asserts sm cs = Inr (zs', s1)" and c: "zs = z # zs'"
    by (auto simp: ebind_def split: sum.splits)
  from Cons.IH [OF b] zIndex_refreshed [OF a] c show ?case
    by (auto intro: refreshed_trans)
qed

lemma refreshed_fields:
  assumes "refreshed asserts s s1"
  shows "props (heap s1 b) = props (heap s b)"
    and "globalTransform (heap s1 b) = globalTransform (heap s b)"
    and "localTransform (heap s1 b) = localTransform (heap s b)"
    and "scaleRotateTransform (heap s1 b) = scaleRotateTransform (heap s b)"
    and "children (heap s1 b) = children (heap s b)"
    and "childrenIds (heap s1 b) = childrenIds (heap s b)"
    and "updateMask (heap s1 b) = updateMask (heap s b)"
    and "recalculationType (heap s1 b) = recalculationType (heap s b)"
    and "parentId (heap s1 b) = parentId (heap s b)"
    and "tree_map s1 = tree_map s"
proof -
  from assms have n: "node_refreshed asserts s (heap s b) (heap s1 b)"
    by (simp add: refreshed_def)
  have e: "heap s1 b = (heap s b)\<lparr>parentNode := parentNode (heap s1 b)\<rparr>"
  proof (cases "heap s1 b = heap s b")
    case True
    then show ?thesis by simp
  next
    case False
    with n show ?thesis by (simp add: node_refreshed_def)
  qed
  show "props (heap s1 b) = props (heap s b)" by (subst e) simp
  show "globalTransform (heap s1 b) = globalTransform (heap s b)" by (subst e) simp
  show "localTransform (heap s1 b) = localTransform (heap s b)" by (subst e) simp
  show "scaleRotateTransform (heap s1 b) = scaleRotateTransform (heap s b)" by (subst e) simp
  show "children (heap s1 b) = children (heap s b)" by (subst e) simp
  show "childrenIds (heap s1 b) = childrenIds (heap s b)" by (subst e) simp
  show "updateMask (heap s1 b) = updateMask (heap s b)" by (subst e) simp
  show "recalculationType (heap s1 b) = recalculationType (heap s b)" by (subst e) simp
  show "parentId (heap s1 b) = parentId (heap s b)" by (subst e) simp
  from assms show "tree_map s1 = tree_map s" by (simp add: refreshed_def)
qed

lemma refreshed_stable:
  assumes "refreshed asserts s s1"
    and "updateMask (heap s a) AND 2 \<noteq> 0 \<longrightarrow>
           tree_get asserts s (parentId (heap s a)) = Inr (parentNode (heap s a))"
  shows "heap s1 a = heap s a"
proof -
  from assms(1) have n: "node_refreshed asserts s (heap s a) (heap s1 a)"
    by (simp add: refreshed_def)
  show ?thesis
  proof (cases "heap s1 a = heap s a")
    case False
    with n have m: "updateMask (heap s a) AND 2 \<noteq> 0"
      and g: "tree_get asserts s (parentId (heap s a)) = Inr (parentNode (heap s1 a))"
      and e: "heap s1 a = (heap s a)\<lparr>parentNode := parentNode (heap s1 a)\<rparr>"
      by (simp_all add: node_refreshed_def)
    from m g assms(2) have "parentNode (heap s1 a) = parentNode (heap s a)" by simp
    with e show ?thesis by simp
  qed simp
qed

lemma update_children_result:
  assumes "update_children asserts s a = Inr s1"
  shows "\<exists>cs. s1 = upd_node s a (\<lambda>n. n\<lparr>children := cs\<rparr>) \<and>
           (updateMask (heap s a) AND 1 \<noteq> 0 \<longrightarrow>
              tree_getNodes asserts s (Some (childrenIds (heap s a))) = Inr cs) \<and>
           (updateMask (heap s a) AND 1 = 0 \<longrightarrow> cs = children (heap s a))"
proof (cases "updateMask (heap s a) AND 1 \<noteq> 0")
  case True
  with assms show ?thesis
    by (auto simp: update_children_def ebind_def split: sum.splits)
next
  case False
  with assms have "s1 = s" by (simp add: update_children_def)
  moreover have "s = upd_node s a (\<lambda>n. n\<lparr>children := children (heap s a)\<rparr>)"
    by (simp add: upd_node_def)
  ultimately show ?thesis using False by auto
qed

lemma updateLocalTransform_result:
  assumes "updateLocalTransform asserts s a = Inr s1"
  shows "\<exists>l. s1 = upd_node s a (\<lambda>n. n\<lparr>localTransform := Some l\<rparr>)"
  using assms
  by (auto simp: updateLocalTransform_def ebind_def Let_def split: sum.splits option.splits)

lemma updateScaleRotateTransform_result:
  assumes "updateScaleRotateTransform asserts s a = Inr s1"
  shows "\<exists>l sr. s1 = upd_node s a (\<lambda>n. n\<lparr>scaleRotateTransform := Some sr, localTransform := Some l\<rparr>)"
proof -
  let ?sr = "scale (Matrix3d_rotate (rotation (props (heap s a))))
               (scaleX (props (heap s a))) (scaleY (props (heap s a)))"
  let ?sm = "upd_node s a (\<lambda>n. n\<lparr>scaleRotateTransform := Some ?sr\<rparr>)"
  from assms have "updateLocalTransform asserts ?sm a = Inr s1"
    by (simp add: updateScaleRotateTransform_def Let_def)
  then obtain l where "s1 = upd_node ?sm a (\<lambda>n. n\<lparr>localTransform := Some l\<rparr>)"
    using updateLocalTransform_result by blast
  then have "s1 = upd_node s a (\<lambda>n. n\<lparr>scaleRotateTransform := Some ?sr, localTransform := Some l\<rparr>)"
    by (simp add: upd_node_def)
  then show ?thesis by blast
qed

lemma calculateClippingRect_heap:
  "heap (calculateClippingRect s a r) b =
     (heap s b)\<lparr>clippingRect := clippingRect (heap (calculateClippingRect s a r) b),
                parentClippingRect := parentClippingRect (heap (calculateClippingRect s a r) b)\<rparr>"
  by (simp add: calculateClippingRect_def Let_def upd_node_def split: option.splits prod.splits)

lemma calculateClippingRect_tree_map [simp]:
  "tree_map (calculateClippingRect s a r) = tree_map s"
  by (simp add: calculateClippingRect_def Let_def upd_node_def split: option.splits prod.splits)

lemma update_globalTransform_result:
  assumes "update_globalTransform asserts s a = Inr s1"
  shows "\<exists>parent l sm. CoreNode_parent asserts s a = Inr (parent, sm) \<and>
           localTransform (heap s a) = Some l \<and>
           s1 = upd_node sm a (\<lambda>n. n\<lparr>globalTransform :=
                  Some (case parent of None \<Rightarrow> l
                        | Some p \<Rightarrow> (case globalTransform (heap s p) of
                                       None \<Rightarrow> l | Some g \<Rightarrow> Matrix3d_multiply g l))\<rparr>)"
proof -
  obtain parent sm where p: "CoreNode_parent asserts s a = Inr (parent, sm)"
  proof (cases "CoreNode_parent asserts s a")
    case (Inl e)
    with assms show ?thesis by (simp add: update_globalTransform_def ebind_def)
  next
    case (Inr v)
    with that show ?thesis by (cases v) simp
  qed
  have r: "refreshed asserts s sm" using p by (rule parent_refreshed)
  note f = refreshed_fields [OF r]
  obtain l where l: "localTransform (heap sm a) = Some l"
  proof (cases "localTransform (heap sm a)")
    case None
    with assms p show ?thesis by (simp add: update_globalTransform_def ebind_def Let_def)
  next
    case (Some l)
    with that show ?thesis by simp
  qed
  have e: "s1 = upd_node sm a (\<lambda>n. n\<lparr>globalTransform :=
                  Some (case parent of None \<Rightarrow> l
                        | Some p \<Rightarrow> (case globalTransform (heap s p) of
                                       None \<Rightarrow> l | Some g \<Rightarrow> Matrix3d_multiply g l))\<rparr>)"
  proof (cases parent)
    case None
    with assms p l show ?thesis
      by (simp add: update_globalTransform_def ebind_def Let_def Matrix3d_copy_def)
  next
    case (Some pa)
    show ?thesis
    proof (cases "globalTransform (heap s pa)")
      case None
      with assms p l Some f(2) [of pa] show ?thesis
        by (simp add: update_globalTransform_def ebind_def Let_def Matrix3d_copy_def)
    next
      case g: (Some g)
      with assms p l Some f(2) [of pa] show ?thesis
        by (simp add: update_globalTransform_def ebind_def Let_def Matrix3d_copy_def
            multiply_def)
    qed
  qed
  from l f(3) [of a] have "localTransform (heap s a) = Some l" by simp
  with p e show ?thesis by blast
qed

lemma parent_cached:
  assumes "CoreNode_parent asserts s a = Inr (parent, sm)"
  shows "parentNode (heap sm a) = parent"
    and "updateMask (heap sm a) AND 2 \<noteq> 0 \<longrightarrow>
           tree_get asserts sm (parentId (heap sm a)) = Inr (parentNode (heap sm a))"
proof -
  show "parentNode (heap sm a) = parent"
  proof (cases "updateMask (heap s a) AND 2 \<noteq> 0")
    case True
    with assms show ?thesis
      by (cases "tree_get asserts s (parentId (heap s a))")
         (auto simp: CoreNode_parent_def ebind_def)
  next
    case False
    with assms show ?thesis by (auto simp: CoreNode_parent_def)
  qed
  show "updateMask (heap sm a) AND 2 \<noteq> 0 \<longrightarrow>
           tree_get asserts sm (parentId (heap sm a)) = Inr (parentNode (heap sm a))"
  proof (cases "updateMask (heap s a) AND 2 \<noteq> 0")
    case True
    show ?thesis
    proof (cases "tree_get asserts s (parentId (heap s a))")
      case (Inl e)
      with assms True show ?thesis by (simp add: CoreNode_parent_def ebind_def)
    next
      case (Inr v)
      with assms True have e: "sm = upd_node s a (\<lambda>n. n\<lparr>parentNode := v\<rparr>)"
        by (auto simp: CoreNode_parent_def ebind_def)
      have "tree_get asserts sm (parentId (heap s a)) = Inr v"
        using Inr tree_get_cong [of sm s] by (simp add: e)
      then show ?thesis by (simp add: e)
    qed
  next
    case False
    with assms show ?thesis by (auto simp: CoreNode_parent_def)
  qed
qed

lemma set_sorted_children:
  "length zs = length cs \<Longrightarrow> set (map snd (sort_key fst (zip zs cs))) = set cs"
proof -
  assume l: "length zs = length cs"
  have "set (map snd (sort_key fst (zip zs cs))) = snd ` set (zip zs cs)" by simp
  also have "\<dots> = set (map snd (zip zs cs))" by simp
  also have "\<dots> = set cs" using l by simp
  finally show ?thesis .
qed

lemma sortChildren_result:
  assumes "sortChildren depth asserts s a = Inr s1"
  shows "\<exists>sm cs. refreshed asserts s sm \<and> s1 = upd_node sm a (\<lambda>n. n\<lparr>children := cs\<rparr>) \<and>
           set cs = set (children (heap s a))"
proof (cases "length (children (heap s a)) < 2")
  case True
  with assms have "s1 = s" by (simp add: sortChildren_def Let_def)
  moreover have "s = upd_node s a (\<lambda>n. n\<lparr>children := children (heap s a)\<rparr>)"
    by (simp add: upd_node_def)
  ultimately have "refreshed asserts s s \<and>
      s1 = upd_node s a (\<lambda>n. n\<lparr>children := children (heap s a)\<rparr>) \<and>
      set (children (heap s a)) = set (children (heap s a))" by simp
  then show ?thesis by blast
next
  case False
  obtain zs sm where k: "zIndex_keys depth asserts s (children (heap s a)) = Inr (zs, sm)"
  proof (cases "zIndex_keys depth asserts s (children (heap s a))")
    case (Inl e)
    with assms False show ?thesis by (simp add: sortChildren_def Let_def ebind_def)
  next
    case (Inr v)
    with that show ?thesis by (cases v) simp
  qed
  from assms False k have
    e: "s1 = upd_node sm a (\<lambda>n. n\<lparr>children :=
           map snd (sort_key fst (zip zs (children (heap s a))))\<rparr>)"
    by (simp add: sortChildren_def Let_def ebind_def)
  from zIndex_keys_refreshed [OF k] have r: "refreshed asserts s sm"
    and l: "length zs = length (children (heap s a))" by simp_all
  from r e set_sorted_children [OF l] show ?thesis by blast
qed

lemma CoreNode_update_steps:
  assumes "CoreNode_update depth asserts s a delta pcr = Inr s'"
  shows "\<exists>s1 s2 s3 s4 s6.
           update_children asserts s a = Inr s1 \<and>
           (if recalculationType (heap s1 a) AND 2 \<noteq> 0
            then updateLocalTransform asserts s1 a else Inr s1) = Inr s2 \<and>
           (if recalculationType (heap s2 a) AND 4 \<noteq> 0
            then updateScaleRotateTransform asserts s2 a else Inr s2) = Inr s3 \<and>
           update_globalTransform asserts s3 a = Inr s4 \<and>
           (if recalculationType (heap (calculateClippingRect s4 a pcr) a) AND 8 \<noteq> 0
            then sortChildren depth asserts (calculateClippingRect s4 a pcr) a
            else Inr (calculateClippingRect s4 a pcr)) = Inr s6 \<and>
           s' = upd_node s6 a (\<lambda>n. n\<lparr>hasUpdates := False, updateMask := 0,
                                       recalculationType := 0\<rparr>)"
  using assms unfolding CoreNode_update_def Let_def
  apply (elim ebind_InrE)
  apply (intro exI conjI)
       apply assumption+
  apply simp
  done


lemma calculateClippingRect_fields:
  "globalTransform (heap (calculateClippingRect s a r) b) = globalTransform (heap s b)"
  "localTransform (heap (calculateClippingRect s a r) b) = localTransform (heap s b)"
  "parentNode (heap (calculateClippingRect s a r) b) = parentNode (heap s b)"
  "parentId (heap (calculateClippingRect s a r) b) = parentId (heap s b)"
  "updateMask (heap (calculateClippingRect s a r) b) = updateMask (heap s b)"
  "recalculationType (heap (calculateClippingRect s a r) b) = recalculationType (heap s b)"
  "children (heap (calculateClippingRect s a r) b) = children (heap s b)"
  by (subst calculateClippingRect_heap, simp)+

lemma update_tail:
  assumes six: "(if recalculationType (heap s5 a) AND 8 \<noteq> 0
                 then sortChildren depth asserts s5 a else Inr s5) = Inr s6"
    and valid: "updateMask (heap s5 a) AND 2 \<noteq> 0 \<longrightarrow>
                  tree_get asserts s5 (parentId (heap s5 a)) = Inr (parentNode (heap s5 a))"
  shows "globalTransform (heap s6 b) = globalTransform (heap s5 b)"
    and "localTransform (heap s6 b) = localTransform (heap s5 b)"
    and "parentNode (heap s6 a) = parentNode (heap s5 a)"
    and "tree_map s6 = tree_map s5"
    and "set (children (heap s6 a)) = set (children (heap s5 a))"
    and "recalculationType (heap s5 a) AND 8 = 0 \<longrightarrow>
           children (heap s6 a) = children (heap s5 a)"
proof -
  have "\<exists>sm cs. refreshed asserts s5 sm \<and> s6 = upd_node sm a (\<lambda>n. n\<lparr>children := cs\<rparr>) \<and>
           set cs = set (children (heap s5 a)) \<and>
           (recalculationType (heap s5 a) AND 8 = 0 \<longrightarrow> cs = children (heap s5 a))"
  proof (cases "recalculationType (heap s5 a) AND 8 \<noteq> 0")
    case True
    with six have "sortChildren depth asserts s5 a = Inr s6" by simp
    from sortChildren_result [OF this] obtain sm cs where
      "refreshed asserts s5 sm" "s6 = upd_node sm a (\<lambda>n. n\<lparr>children := cs\<rparr>)"
      "set cs = set (children (heap s5 a))" by blast
    with True have X: "refreshed asserts s5 sm \<and> s6 = upd_node sm a (\<lambda>n. n\<lparr>children := cs\<rparr>) \<and>
           set cs = set (children (heap s5 a)) \<and>
           (recalculationType (heap s5 a) AND 8 = 0 \<longrightarrow> cs = children (heap s5 a))"
      by simp
    show ?thesis by (rule exI [of _ sm], rule exI [of _ cs]) (fact X)
  next
    case False
    with six have "s6 = s5" by simp
    moreover have "s5 = upd_node s5 a (\<lambda>n. n\<lparr>children := children (heap s5 a)\<rparr>)"
      by (simp add: upd_node_def)
    ultimately have X: "refreshed asserts s5 s5 \<and>
        s6 = upd_node s5 a (\<lambda>n. n\<lparr>children := children (heap s5 a)\<rparr>) \<and>
        set (children (heap s5 a)) = set (children (heap s5 a)) \<and>
        (recalculationType (heap s5 a) AND 8 = 0 \<longrightarrow>
           children (heap s5 a) = children (heap s5 a))" by simp
    show ?thesis
      by (rule exI [of _ s5], rule exI [of _ "children (heap s5 a)"]) (fact X)
  qed
  then obtain sm cs where r: "refreshed asserts s5 sm"
    and e: "s6 = upd_node sm a (\<lambda>n. n\<lparr>children := cs\<rparr>)"
    and cs: "set cs = set (children (heap s5 a))"
    and cs8: "recalculationType (heap s5 a) AND 8 = 0 \<longrightarrow> cs = children (heap s5 a)"
    by (elim exE conjE)
  note f = refreshed_fields [OF r]
  have st: "heap sm a = heap s5 a" using r valid by (rule refreshed_stable)
  show "globalTransform (heap s6 b) = globalTransform (heap s5 b)"
    by (simp add: e f(2))
  show "localTransform (heap s6 b) = localTransform (heap s5 b)"
    by (simp add: e f(3))
  show "parentNode (heap s6 a) = parentNode (heap s5 a)"
    using st by (simp add: e)
  show "tree_map s6 = tree_map s5" by (simp add: e f(10))
  show "set (children (heap s6 a)) = set (children (heap s5 a))"
    using cs by (simp add: e)
  show "recalculationType (heap s5 a) AND 8 = 0 \<longrightarrow>
           children (heap s6 a) = children (heap s5 a)"
    using cs8 by (simp add: e)
qed

lemma update_head:
  assumes c: "update_children asserts s a = Inr s1"
    and two: "(if recalculationType (heap s1 a) AND 2 \<noteq> 0
            then updateLocalTransform asserts s1 a else Inr s1) = Inr s2"
    and four: "(if recalculationType (heap s2 a) AND 4 \<noteq> 0
            then updateScaleRotateTransform asserts s2 a else Inr s2) = Inr s3"
  shows "children (heap s3 a) = children (heap s1 a)"
    and "tree_map s3 = tree_map s"
    and "b \<noteq> a \<longrightarrow> globalTransform (heap s3 b) = globalTransform (heap s b)"
    and "recalculationType (heap s3 a) = recalculationType (heap s a)"
proof -
  from update_children_result [OF c] obtain cs where
    e1: "s1 = upd_node s a (\<lambda>n. n\<lparr>children := cs\<rparr>)" by blast
  have "\<exists>l. s2 = upd_node s1 a (\<lambda>n. n\<lparr>localTransform := l\<rparr>)"
  proof (cases "recalculationType (heap s1 a) AND 2 \<noteq> 0")
    case True
    with two updateLocalTransform_result [of asserts s1 a s2] show ?thesis by auto
  next
    case False
    with two have "s2 = s1" by simp
    moreover have "s1 = upd_node s1 a (\<lambda>n. n\<lparr>localTransform := localTransform (heap s1 a)\<rparr>)"
      by (simp add: upd_node_def)
    ultimately show ?thesis by metis
  qed
  then obtain l where e2: "s2 = upd_node s1 a (\<lambda>n. n\<lparr>localTransform := l\<rparr>)" by blast
  have "\<exists>sr l. s3 = upd_node s2 a (\<lambda>n. n\<lparr>scaleRotateTransform := sr, localTransform := l\<rparr>)"
  proof (cases "recalculationType (heap s2 a) AND 4 \<noteq> 0")
    case True
    with four updateScaleRotateTransform_result [of asserts s2 a s3] show ?thesis by auto
  next
    case False
    with four have "s3 = s2" by simp
    moreover have "s2 = upd_node s2 a (\<lambda>n. n\<lparr>scaleRotateTransform :=
         scaleRotateTransform (heap s2 a), localTransform := localTransform (heap s2 a)\<rparr>)"
      by (simp add: upd_node_def)
    ultimately show ?thesis by metis
  qed
  then obtain sr l' where
    e3: "s3 = upd_node s2 a (\<lambda>n. n\<lparr>scaleRotateTransform := sr, localTransform := l'\<rparr>)"
    by blast
  show "children (heap s3 a) = children (heap s1 a)" by (simp add: e3 e2)
  show "tree_map s3 = tree_map s" by (simp add: e3 e2 e1)
  show "b \<noteq> a \<longrightarrow> globalTransform (heap s3 b) = globalTransform (heap s b)"
    by (simp add: e3 e2 e1)
  show "recalculationType (heap s3 a) = recalculationType (heap s a)"
    by (simp add: e3 e2 e1)
qed

lemma update_middle:
  assumes g: "update_globalTransform asserts s3 a = Inr s4"
  shows "\<exists>l. localTransform (heap s4 a) = Some l \<and>
           globalTransform (heap s4 a) =
             Some (case parentNode (heap s4 a) of None \<Rightarrow> l
                   | Some p \<Rightarrow> (case globalTransform (heap s3 p) of
                                  None \<Rightarrow> l | Some g \<Rightarrow> Matrix3d_multiply g l))"
    and "b \<noteq> a \<longrightarrow> globalTransform (heap s4 b) = globalTransform (heap s3 b)"
    and "updateMask (heap s4 a) AND 2 \<noteq> 0 \<longrightarrow>
           tree_get asserts s4 (parentId (heap s4 a)) = Inr (parentNode (heap s4 a))"
    and "tree_map s4 = tree_map s3"
    and "children (heap s4 a) = children (heap s3 a)"
    and "recalculationType (heap s4 a) = recalculationType (heap s3 a)"
proof -
  from update_globalTransform_result [OF g] obtain parent l sm where
    p: "CoreNode_parent asserts s3 a = Inr (parent, sm)" and
    l: "localTransform (heap s3 a) = Some l" and
    e: "s4 = upd_node sm a (\<lambda>n. n\<lparr>globalTransform :=
                  Some (case parent of None \<Rightarrow> l
                        | Some p \<Rightarrow> (case globalTransform (heap s3 p) of
                                       None \<Rightarrow> l | Some g \<Rightarrow> Matrix3d_multiply g l))\<rparr>)"
    by blast
  have r: "refreshed asserts s3 sm" using p by (rule parent_refreshed)
  note f = refreshed_fields [OF r]
  note pc = parent_cached [OF p]
  have "localTransform (heap s4 a) = Some l \<and>
           globalTransform (heap s4 a) =
             Some (case parentNode (heap s4 a) of None \<Rightarrow> l
                   | Some p \<Rightarrow> (case globalTransform (heap s3 p) of
                                  None \<Rightarrow> l | Some g \<Rightarrow> Matrix3d_multiply g l))"
    using l f(3) [of a] pc(1) by (simp add: e)
  then show "\<exists>l. localTransform (heap s4 a) = Some l \<and>
           globalTransform (heap s4 a) =
             Some (case parentNode (heap s4 a) of None \<Rightarrow> l
                   | Some p \<Rightarrow> (case globalTransform (heap s3 p) of
                                  None \<Rightarrow> l | Some g \<Rightarrow> Matrix3d_multiply g l))"
    by blast
  show "b \<noteq> a \<longrightarrow> globalTransform (heap s4 b) = globalTransform (heap s3 b)"
    by (simp add: e f(2))
  have tm: "tree_map s4 = tree_map sm" by (simp add: e)
  show "updateMask (heap s4 a) AND 2 \<noteq> 0 \<longrightarrow>
           tree_get asserts s4 (parentId (heap s4 a)) = Inr (parentNode (heap s4 a))"
    using pc(2) tree_get_cong [OF tm, of asserts] by (simp add: e)
  show "tree_map s4 = tree_map s3" using f(10) tm by simp
  show "children (heap s4 a) = children (heap s3 a)" by (simp add: e f(5))
  show "recalculationType (heap s4 a) = recalculationType (heap s3 a)"
    by (simp add: e f(8))
qed


section \<open>Global transforms after recomputation\<close>







section \<open>Resolving children from the registry\<close>

text \<open>
  Claim C4, as amended. For a non-empty id list, \<open>tree.getNodes\<close> returns the nodes of
  the ids, in the order of the list, when every id is registered. When some id is not
  registered, the assertion in \<open>tree.get\<close> makes the call fault; only with assertions
  off is such an id dropped silently. For an empty or undefined id list the result is
  every registered node, in registration order.
\<close>

theorem getNodes_amended:
  "(ids \<noteq> [] \<and> (\<forall>k\<in>set ids. map_of (tree_map s) k \<noteq> None) \<longrightarrow>
      tree_getNodes asserts s (Some ids) = Inr (map (\<lambda>k. the (map_of (tree_map s) k)) ids))
   \<and> (ids \<noteq> [] \<and> (\<exists>k\<in>set ids. map_of (tree_map s) k = None) \<longrightarrow>
      tree_getNodes True s (Some ids) = Inl AssertionFailed)
   \<and> (ids \<noteq> [] \<longrightarrow>
      tree_getNodes False s (Some ids) = Inr (List.map_filter (map_of (tree_map s)) ids))
   \<and> tree_getNodes asserts s (Some []) = Inr (map snd (tree_map s))
   \<and> tree_getNodes asserts s None = Inr (map snd (tree_map s))"
proof (intro conjI impI)
  assume h: "ids \<noteq> [] \<and> (\<forall>k\<in>set ids. map_of (tree_map s) k \<noteq> None)"
  then show "tree_getNodes asserts s (Some ids) = Inr (map (\<lambda>k. the (map_of (tree_map s) k)) ids)"
    using getNodes_map_all [of ids s asserts] filter_Boolean_all [of ids "map_of (tree_map s)"]
    by (simp add: tree_getNodes_def ebind_def)
next
  assume h: "ids \<noteq> [] \<and> (\<exists>k\<in>set ids. map_of (tree_map s) k = None)"
  then show "tree_getNodes True s (Some ids) = Inl AssertionFailed"
    using getNodes_map_fault [of ids s] by (simp add: tree_getNodes_def ebind_def)
next
  assume "ids \<noteq> []"
  then show "tree_getNodes False s (Some ids) = Inr (List.map_filter (map_of (tree_map s)) ids)"
    by (simp add: tree_getNodes_def ebind_def getNodes_map_off filter_Boolean_map_filter)
qed (simp_all add: tree_getNodes_def)

text \<open>Witness for C4 as amended, on the registry of \<open>three_nodes\<close>.\<close>

theorem getNodes_amended_witness:
  "tree_getNodes True three_nodes (Some [2, 1]) = Inr [2, 1] \<and>
   tree_getNodes True three_nodes (Some [2, 9]) = Inl AssertionFailed \<and>
   tree_getNodes False three_nodes (Some [2, 9]) = Inr [2]"
proof -
  have tm: "tree_map three_nodes = [(1, 1), (2, 2), (3, 3)]"
    by (simp add: scene_defs tree_defs node_defs Let_def)
  from getNodes_amended [of "[2, 1]" three_nodes True] getNodes_amended [of "[2, 9]" three_nodes True]
  show ?thesis by (simp add: tm List.map_filter_def)
qed


text \<open>Counterexample to C4 as stated: on the registry of \<open>three_nodes\<close> the empty id
  list resolves to all three nodes, not to the empty list, and the unregistered id 9
  raises a fault.\<close>

theorem getNodes_counterexample:
  "tree_getNodes True three_nodes (Some []) = Inr [1, 2, 3] \<and>
   tree_getNodes True three_nodes (Some []) \<noteq> Inr [] \<and>
   tree_getNodes True three_nodes (Some [9]) = Inl AssertionFailed"
  by (simp add: scene_defs tree_defs node_defs Let_def)

text \<open>
  Claim C10. \<open>tree.getNodes\<close> with an empty or undefined id list returns every
  registered node. Consequently, when \<open>CoreNode.update\<close> runs on a node whose
  \<open>updateMask\<close> has bit 1 set and whose \<open>childrenIds\<close> is empty, the node's \<open>children\<close>
  become the registered nodes: as a set in general (bit 8 of \<open>recalculationType\<close> sorts
  them), and as the list in registration order when bit 8 is not set.
\<close>

theorem getNodes_empty_resolves_all_nodes:
  "tree_getNodes asserts s (Some []) = Inr (map snd (tree_map s)) \<and>
   tree_getNodes asserts s None = Inr (map snd (tree_map s)) \<and>
   (updateMask (heap s a) AND 1 \<noteq> 0 \<and> childrenIds (heap s a) = [] \<and>
    CoreNode_update depth asserts s a delta pcr = Inr s' \<longrightarrow>
      tree_map s' = tree_map s \<and>
      set (children (heap s' a)) = set (map snd (tree_map s)) \<and>
      (recalculationType (heap s a) AND 8 = 0 \<longrightarrow>
         children (heap s' a) = map snd (tree_map s)))"
proof (intro conjI impI)
  show "tree_getNodes asserts s (Some []) = Inr (map snd (tree_map s))"
    by (simp add: tree_getNodes_def)
  show "tree_getNodes asserts s None = Inr (map snd (tree_map s))"
    by (simp add: tree_getNodes_def)
next
  assume h: "updateMask (heap s a) AND 1 \<noteq> 0 \<and> childrenIds (heap s a) = [] \<and>
    CoreNode_update depth asserts s a delta pcr = Inr s'"
  then have u: "CoreNode_update depth asserts s a delta pcr = Inr s'" by simp
  from CoreNode_update_steps [OF u] obtain s1 s2 s3 s4 s6 where
    c: "update_children asserts s a = Inr s1" and
    two: "(if recalculationType (heap s1 a) AND 2 \<noteq> 0
            then updateLocalTransform asserts s1 a else Inr s1) = Inr s2" and
    four: "(if recalculationType (heap s2 a) AND 4 \<noteq> 0
            then updateScaleRotateTransform asserts s2 a else Inr s2) = Inr s3" and
    g: "update_globalTransform asserts s3 a = Inr s4" and
    six: "(if recalculationType (heap (calculateClippingRect s4 a pcr) a) AND 8 \<noteq> 0
            then sortChildren depth asserts (calculateClippingRect s4 a pcr) a
            else Inr (calculateClippingRect s4 a pcr)) = Inr s6" and
    e: "s' = upd_node s6 a (\<lambda>n. n\<lparr>hasUpdates := False, updateMask := 0,
                                       recalculationType := 0\<rparr>)"
    by blast
  let ?s5 = "calculateClippingRect s4 a pcr"
  from update_children_result [OF c] h obtain cs where
    e1: "s1 = upd_node s a (\<lambda>n. n\<lparr>children := cs\<rparr>)" and
    "tree_getNodes asserts s (Some []) = Inr cs" by auto
  then have cs: "cs = map snd (tree_map s)" by (simp add: tree_getNodes_def)
  have c1: "children (heap s1 a) = map snd (tree_map s)" by (simp add: e1 cs)
  have r1: "recalculationType (heap s1 a) = recalculationType (heap s a)" by (simp add: e1)
  note hd = update_head [OF c two four]
  note m = update_middle [OF g]
  have valid: "updateMask (heap ?s5 a) AND 2 \<noteq> 0 \<longrightarrow>
                  tree_get asserts ?s5 (parentId (heap ?s5 a)) = Inr (parentNode (heap ?s5 a))"
    using m(3) tree_get_cong [of ?s5 s4 asserts]
    by (simp add: calculateClippingRect_fields)
  note t = update_tail [OF six valid]
  have c5: "children (heap ?s5 a) = map snd (tree_map s)"
    using m(5) hd(1) c1 by (simp add: calculateClippingRect_fields)
  show "tree_map s' = tree_map s"
    using t(4) m(4) hd(2) by (simp add: e)
  show "set (children (heap s' a)) = set (map snd (tree_map s))"
    using t(5) c5 by (simp add: e)
  show "children (heap s' a) = map snd (tree_map s)"
    if "recalculationType (heap s a) AND 8 = 0"
  proof -
    from that hd(4) m(6) have "recalculationType (heap ?s5 a) AND 8 = 0"
      by (simp add: calculateClippingRect_fields)
    with t(6) c5 show ?thesis by (simp add: e)
  qed
qed

text \<open>Witness for C10: node 3 is added to node 1 and moved to node 2 before the frame
  (\<open>child_moved\<close>); the recomputation of node 1 then resolves its children to all three
  registered nodes, itself included.\<close>

theorem getNodes_empty_resolves_all_nodes_witness:
  "updateMask (heap child_moved 1) AND 1 \<noteq> 0 \<and> childrenIds (heap child_moved 1) = [] \<and>
   (\<exists>s'. CoreNode_update 3 True child_moved 1 0 None = Inr s' \<and>
         children (heap s' 1) = [1, 2, 3])"
proof -
  have h: "updateMask (heap child_moved 1) AND 1 \<noteq> 0" "childrenIds (heap child_moved 1) = []"
    "recalculationType (heap child_moved 1) AND 8 = 0"
    "tree_map child_moved = [(1, 1), (2, 2), (3, 3)]"
    by (simp_all add: scene_defs tree_defs node_defs Let_def)
  have "\<exists>s'. CoreNode_update 3 True child_moved 1 0 None = Inr s'"
    by (simp add: scene_defs tree_defs node_defs update_defs Let_def)
  then obtain s' where u: "CoreNode_update 3 True child_moved 1 0 None = Inr s'" ..
  from getNodes_empty_resolves_all_nodes [of True child_moved 1 3 0 None s'] h u
  have "children (heap s' 1) = [1, 2, 3]" by simp
  with h u show ?thesis by simp
qed


section \<open>Reparenting\<close>

text \<open>
  Claim C5. Let node \<open>N\<close> have the parent id \<open>k\<close> (not \<open>0\<close>, which the setter reads as
  "no parent"), registered for the node \<open>op\<close> whose id is \<open>k\<close>, and let \<open>np\<close> be a node
  with another id. Then the assignment \<open>N.parent = np\<close> succeeds, and in the state it
  returns the \<open>childrenIds\<close> of \<open>op\<close> no longer contain the id of \<open>N\<close>, while the
  \<open>childrenIds\<close> of \<open>np\<close> are the former ones with the id of \<open>N\<close> appended.
\<close>

theorem set_parent_moves_child:
  assumes cur: "parentId (heap s a) = Some k" and nz: "k \<noteq> 0"
    and old: "map_of (tree_map s) k = Some op" and old_id: "id' (props (heap s op)) = k"
    and new: "id' (props (heap s np)) \<noteq> k"
  shows "\<exists>s'. set_parent asserts s a (Some np) = Inr s'
           \<and> id' (props (heap s a)) \<notin> set (childrenIds (heap s' op))
           \<and> childrenIds (heap s' np) = childrenIds (heap s np) @ [id' (props (heap s a))]"
proof -
  from old_id new have ne: "op \<noteq> np" by auto
  let ?i = "id' (props (heap s a))"
  let ?s0 = "upd_node s op (\<lambda>n. n\<lparr>childrenIds := filter (\<lambda>i. i \<noteq> ?i) (childrenIds n)\<rparr>)"
  let ?s1 = "setChildrenHasUpdates (setHasUpdates ?s0 op) op"
  have d: "detach_from_old_parent asserts s a = Inr ?s1"
    using cur nz old
    by (simp add: detach_from_old_parent_def falsy_id_def tree_get_def assertTruthy_def
        ebind_def Let_def)
  have c1: "childrenIds (heap ?s1 op) = filter (\<lambda>i. i \<noteq> ?i) (childrenIds (heap s op))"
    by simp
  have c2: "childrenIds (heap ?s1 np) = childrenIds (heap s np)"
    using ne by simp
  have p1: "props (heap ?s1 b) = props (heap s b)" for b
    by simp
  show ?thesis
    using cur new ne c1 c2 p1
    by (simp add: set_parent_def d ebind_def Let_def attach_to_new_parent_def)
qed

text \<open>Witness for C5: in \<open>child_added\<close> node 3 is a child of node 1 and is moved to
  node 2.\<close>

theorem set_parent_moves_child_witness:
  "childrenIds (heap child_added 1) = [3] \<and>
   (\<exists>s'. set_parent True child_added 3 (Some 2) = Inr s' \<and>
         3 \<notin> set (childrenIds (heap s' 1)) \<and> childrenIds (heap s' 2) = [3])"
proof -
  have h: "parentId (heap child_added 3) = Some 1" "(1::int) \<noteq> 0"
    "map_of (tree_map child_added) 1 = Some 1" "id' (props (heap child_added 1)) = 1"
    "id' (props (heap child_added 2)) \<noteq> 1"
    "id' (props (heap child_added 3)) = 3" "childrenIds (heap child_added 2) = []"
    "childrenIds (heap child_added 1) = [3]"
    by (simp_all add: scene_defs tree_defs node_defs Let_def)
  from set_parent_moves_child [OF h(1) h(2) h(3) h(4) h(5), of True] h(6) h(7) h(8)
  show ?thesis by simp
qed


section \<open>Setters and the dirty flags\<close>

lemmas setter_defs = set_x_def set_y_def set_width_def set_height_def set_scaleX_def
  set_scaleY_def set_rotation_def set_mountX_def set_mountY_def set_pivotX_def set_pivotY_def
  set_alpha_def set_colorTl_def set_colorTr_def set_colorBl_def set_colorBr_def set_scale_def
  set_mount_def set_pivot_def set_clipping_def set_color_def set_colorTop_def
  set_colorBottom_def set_colorLeft_def set_colorRight_def set_zIndexLocked_def set_zIndex_def


lemma or_and_absorb_nat: "((m::nat) OR t) AND t = t"
  by (rule bit_eqI) (auto simp: bit_and_iff bit_or_iff)

lemma flagged_setRecalculationType: "flagged (setRecalculationType s a t) a t"
  by (simp add: flagged_def setRecalculationType_def setHasUpdates_def tree_markDirty_def
      setParentHasUpdates_def setChildrenHasUpdates_def upd_node_def Let_def
      or_and_absorb_nat update_conv')


text \<open>
  Claim C3, as amended. The setters \<open>x\<close>, \<open>y\<close>, \<open>width\<close>, \<open>height\<close>, \<open>scaleX\<close>,
  \<open>scaleY\<close> and \<open>rotation\<close> compare first: assigning the current value leaves the whole
  state unchanged (stored properties, dirty set and bit masks); so does \<open>pivot\<close> when the
  value equals both \<open>pivotX\<close> and \<open>pivotY\<close>, and \<open>scale\<close> when it equals both \<open>scaleX\<close>
  and \<open>scaleY\<close>; \<open>zIndexLocked\<close> only stores its value, so that assigning the current
  one changes nothing either. The setters \<open>alpha\<close>, \<open>clipping\<close>, \<open>mount\<close>, \<open>mountX\<close>, \<open>mountY\<close>,
  \<open>pivotX\<close>, \<open>pivotY\<close>, \<open>zIndex\<close> and the color setters do not compare: whatever the
  value, the node is marked dirty and their recomputation bit is set.
\<close>

theorem guarded_setters_are_noops:
  "set_x s a (x (props (heap s a))) = s \<and>
   set_y s a (y (props (heap s a))) = s \<and>
   set_width s a (width (props (heap s a))) = s \<and>
   set_height s a (height (props (heap s a))) = s \<and>
   set_scaleX s a (scaleX (props (heap s a))) = s \<and>
   set_scaleY s a (scaleY (props (heap s a))) = s \<and>
   set_rotation s a (rotation (props (heap s a))) = s \<and>
   set_zIndexLocked s a (zIndexLocked (props (heap s a))) = s \<and>
   (pivotX (props (heap s a)) = v \<and> pivotY (props (heap s a)) = v \<longrightarrow> set_pivot s a v = s) \<and>
   (scaleX (props (heap s a)) = v \<and> scaleY (props (heap s a)) = v \<longrightarrow> set_scale s a v = s) \<and>
   flagged (set_alpha s a v) a 4 \<and> flagged (set_clipping s a c) a 4 \<and>
   flagged (set_mount s a v) a 2 \<and> flagged (set_mountX s a v) a 2 \<and>
   flagged (set_mountY s a v) a 2 \<and> flagged (set_pivotX s a v) a 2 \<and>
   flagged (set_pivotY s a v) a 2 \<and> flagged (set_zIndex s a v) a 8 \<and>
   flagged (set_color s a v) a 2 \<and> flagged (set_colorTop s a v) a 2 \<and>
   flagged (set_colorBottom s a v) a 2 \<and> flagged (set_colorLeft s a v) a 2 \<and>
   flagged (set_colorRight s a v) a 2 \<and> flagged (set_colorTl s a v) a 2 \<and>
   flagged (set_colorTr s a v) a 2 \<and> flagged (set_colorBl s a v) a 2 \<and>
   flagged (set_colorBr s a v) a 2"
proof -
  have g: "set_x s a (x (props (heap s a))) = s" "set_y s a (y (props (heap s a))) = s"
    "set_width s a (width (props (heap s a))) = s"
    "set_height s a (height (props (heap s a))) = s"
    "set_scaleX s a (scaleX (props (heap s a))) = s"
    "set_scaleY s a (scaleY (props (heap s a))) = s"
    "set_rotation s a (rotation (props (heap s a))) = s"
    "set_zIndexLocked s a (zIndexLocked (props (heap s a))) = s"
    by (simp_all add: setter_defs upd_props_def upd_node_def)
  have p: "pivotX (props (heap s a)) = v \<and> pivotY (props (heap s a)) = v \<longrightarrow> set_pivot s a v = s"
    "scaleX (props (heap s a)) = v \<and> scaleY (props (heap s a)) = v \<longrightarrow> set_scale s a v = s"
    by (simp_all add: setter_defs)
  have u: "flagged (set_alpha s a v) a 4" "flagged (set_clipping s a c) a 4"
    "flagged (set_mount s a v) a 2" "flagged (set_mountX s a v) a 2"
    "flagged (set_mountY s a v) a 2" "flagged (set_pivotX s a v) a 2"
    "flagged (set_pivotY s a v) a 2" "flagged (set_zIndex s a v) a 8"
    "flagged (set_colorTl s a v) a 2"
    "flagged (set_colorTr s a v) a 2" "flagged (set_colorBl s a v) a 2"
    "flagged (set_colorBr s a v) a 2"
    by (simp_all only: setter_defs flagged_setRecalculationType)
  have c: "flagged (set_color s a v) a 2" "flagged (set_colorTop s a v) a 2"
    "flagged (set_colorBottom s a v) a 2" "flagged (set_colorLeft s a v) a 2"
    "flagged (set_colorRight s a v) a 2"
    by (simp_all only: set_color_def set_colorTop_def set_colorBottom_def set_colorLeft_def
        set_colorRight_def Let_def flagged_setRecalculationType)
  from g p u c show ?thesis by (intro conjI)
qed


text \<open>Witness for C3 as amended, on \<open>clean_scene\<close>.\<close>

theorem guarded_setters_are_noops_witness:
  "set_x clean_scene 1 0 = clean_scene \<and> set_pivot clean_scene 1 0 = clean_scene \<and>
   set_scale clean_scene 1 1 = clean_scene \<and> \<not> flagged clean_scene 1 4 \<and>
   flagged (set_alpha clean_scene 1 1) 1 4"
proof -
  have h: "x (props (heap clean_scene 1)) = 0" "pivotX (props (heap clean_scene 1)) = 0"
    "pivotY (props (heap clean_scene 1)) = 0" "scaleX (props (heap clean_scene 1)) = 1"
    "scaleY (props (heap clean_scene 1)) = 1" "\<not> hasUpdates (heap clean_scene 1)"
    by (simp_all add: clean_scene_def scene_defs tree_defs node_defs update_defs
        tree_clearDirtyNodes_def Let_def)
  from guarded_setters_are_noops [of clean_scene 1 0]
    guarded_setters_are_noops [of clean_scene 1 1] h
  show ?thesis by (simp add: flagged_def)
qed


text \<open>Counterexample to C3 as stated: in \<open>clean_scene\<close> node 1 has \<open>alpha = 1\<close>, no
  pending recomputation and is not dirty; assigning \<open>alpha = 1\<close> again sets bit 4 and
  \<open>hasUpdates\<close> and puts the node into the dirty set.\<close>

theorem unguarded_setter_counterexample:
  "alpha (props (heap clean_scene 1)) = 1 \<and>
   recalculationType (heap clean_scene 1) = 0 \<and>
   \<not> hasUpdates (heap clean_scene 1) \<and>
   dirtyNodes clean_scene = [] \<and>
   recalculationType (heap (set_alpha clean_scene 1 1) 1) = 4 \<and>
   hasUpdates (heap (set_alpha clean_scene 1 1) 1) \<and>
   dirtyNodes (set_alpha clean_scene 1 1) = [(1, 1)] \<and>
   set_alpha clean_scene 1 1 \<noteq> clean_scene"
proof -
  have h: "alpha (props (heap clean_scene 1)) = 1 \<and>
   recalculationType (heap clean_scene 1) = 0 \<and>
   \<not> hasUpdates (heap clean_scene 1) \<and>
   dirtyNodes clean_scene = [] \<and>
   recalculationType (heap (set_alpha clean_scene 1 1) 1) = 4 \<and>
   hasUpdates (heap (set_alpha clean_scene 1 1) 1) \<and>
   dirtyNodes (set_alpha clean_scene 1 1) = [(1, 1)]"
    by (simp add: clean_scene_def scene_defs tree_defs node_defs update_defs setter_defs
        tree_clearDirtyNodes_def Let_def)
  then have "dirtyNodes (set_alpha clean_scene 1 1) \<noteq> dirtyNodes clean_scene" by simp
  then have "set_alpha clean_scene 1 1 \<noteq> clean_scene" by auto
  with h show ?thesis by simp
qed


section \<open>Rotation\<close>

text \<open>
  Claim C2 at a failing input. Node 1 of \<open>clean_scene\<close> has rotation 0 and scale 1 and
  no pending recomputation. The setter \<open>rotation\<close> stores \<open>pi\<close> and flags bit 2 only, so
  the next \<open>update\<close> reruns the local-transform computation on the old scale-rotate
  matrix: after the update the scale-rotate matrix is still the one of rotation 0, and
  the local transform is the one from before the assignment, although rotating by \<open>pi\<close>
  gives another matrix.
\<close>

theorem rotation_change_not_applied:
  "rotation (props (heap clean_scene 1)) = 0 \<and>
   scaleRotateTransform (heap clean_scene 1) = Some (scale (Matrix3d_rotate 0) 1 1) \<and>
   recalculationType (heap (set_rotation clean_scene 1 pi) 1) = 2 \<and>
   rotation (props (heap rotated_scene 1)) = pi \<and>
   scaleX (props (heap rotated_scene 1)) = 1 \<and> scaleY (props (heap rotated_scene 1)) = 1 \<and>
   recalculationType (heap rotated_scene 1) = 0 \<and>
   scaleRotateTransform (heap rotated_scene 1) = Some (scale (Matrix3d_rotate 0) 1 1) \<and>
   localTransform (heap rotated_scene 1) = localTransform (heap clean_scene 1) \<and>
   scale (Matrix3d_rotate pi) 1 1 \<noteq> scale (Matrix3d_rotate 0) 1 1"
proof -
  have ne: "(0::real) \<noteq> pi" using pi_gt_zero by simp
  have 1: "rotation (props (heap clean_scene 1)) = 0 \<and>
   scaleRotateTransform (heap clean_scene 1) = Some (scale (Matrix3d_rotate 0) 1 1) \<and>
   recalculationType (heap (set_rotation clean_scene 1 pi) 1) = 2"
    using ne
    by (simp add: clean_scene_def scene_defs tree_defs node_defs update_defs setter_defs
        tree_clearDirtyNodes_def Let_def)
  have 2: "rotation (props (heap rotated_scene 1)) = pi \<and>
   scaleX (props (heap rotated_scene 1)) = 1 \<and> scaleY (props (heap rotated_scene 1)) = 1 \<and>
   recalculationType (heap rotated_scene 1) = 0 \<and>
   scaleRotateTransform (heap rotated_scene 1) = Some (scale (Matrix3d_rotate 0) 1 1) \<and>
   localTransform (heap rotated_scene 1) = localTransform (heap clean_scene 1)"
    using ne
    by (simp add: rotated_scene_def clean_scene_def scene_defs tree_defs node_defs update_defs
        setter_defs tree_clearDirtyNodes_def Let_def)
  have 3: "scale (Matrix3d_rotate pi) 1 1 \<noteq> scale (Matrix3d_rotate 0) 1 1"
    by (simp add: node_defs)
  from 1 2 3 show ?thesis by simp
qed


section \<open>Effective z-index\<close>

lemma synced_refl [simp]: "synced s s"
  by (simp add: synced_def)

lemma synced_fields:
  assumes "synced s t"
  shows "props (heap t b) = props (heap s b)"
    and "updateMask (heap t b) = updateMask (heap s b)"
    and "parentId (heap t b) = parentId (heap s b)"
    and "tree_map t = tree_map s"
    and "updateMask (heap s b) AND 2 = 0 \<Longrightarrow> parentNode (heap t b) = parentNode (heap s b)"
proof -
  from assms have e: "heap t b = (heap s b)\<lparr>parentNode := parentNode (heap t b)\<rparr>"
    by (simp add: synced_def)
  show "props (heap t b) = props (heap s b)" by (subst e) simp
  show "updateMask (heap t b) = updateMask (heap s b)" by (subst e) simp
  show "parentId (heap t b) = parentId (heap s b)" by (subst e) simp
  from assms show "tree_map t = tree_map s" by (simp add: synced_def)
  from assms show "updateMask (heap s b) AND 2 = 0 \<Longrightarrow> parentNode (heap t b) = parentNode (heap s b)"
    by (simp add: synced_def)
qed

lemma refreshed_synced:
  assumes "refreshed asserts s t"
  shows "synced s t"
proof -
  have "heap t b = (heap s b)\<lparr>parentNode := parentNode (heap t b)\<rparr> \<and>
        (updateMask (heap s b) AND 2 = 0 \<longrightarrow> parentNode (heap t b) = parentNode (heap s b))" for b
  proof (cases "heap t b = heap s b")
    case True
    then show ?thesis by simp
  next
    case False
    moreover from assms have "node_refreshed asserts s (heap s b) (heap t b)"
      by (simp add: refreshed_def)
    ultimately show ?thesis by (simp add: node_refreshed_def)
  qed
  moreover from assms have "tree_map t = tree_map s" by (simp add: refreshed_def)
  ultimately show ?thesis by (simp add: synced_def)
qed

lemma parent_synced:
  assumes sy: "synced s t" and p: "CoreNode_parent asserts s a = Inr (r, s1)"
  shows "\<exists>t1. CoreNode_parent asserts t a = Inr (r, t1) \<and> synced s1 t1"
proof (cases "updateMask (heap s a) AND 2 \<noteq> 0")
  case True
  note f = synced_fields [OF sy]
  from True p have g: "tree_get asserts s (parentId (heap s a)) = Inr r"
    and e: "s1 = upd_node s a (\<lambda>n. n\<lparr>parentNode := r\<rparr>)"
    by (cases "tree_get asserts s (parentId (heap s a))"; auto simp: CoreNode_parent_def ebind_def)+
  let ?t1 = "upd_node t a (\<lambda>n. n\<lparr>parentNode := r\<rparr>)"
  from g f(3) [of a] tree_get_cong [OF f(4), of asserts] have
    g': "tree_get asserts t (parentId (heap t a)) = Inr r" by simp
  with True f(2) [of a] have 1: "CoreNode_parent asserts t a = Inr (r, ?t1)"
    by (simp add: CoreNode_parent_def ebind_def)
  have "heap ?t1 b = (heap s1 b)\<lparr>parentNode := parentNode (heap ?t1 b)\<rparr> \<and>
        (updateMask (heap s1 b) AND 2 = 0 \<longrightarrow> parentNode (heap ?t1 b) = parentNode (heap s1 b))" for b
  proof (cases "b = a")
    case True
    have "heap t a = (heap s a)\<lparr>parentNode := parentNode (heap t a)\<rparr>"
      using sy by (simp add: synced_def)
    then have "(heap t a)\<lparr>parentNode := r\<rparr> = (heap s a)\<lparr>parentNode := r\<rparr>"
      by (metis CoreNode.update_convs(14) CoreNode.surjective)
    with True show ?thesis by (simp add: e)
  next
    case False
    with sy show ?thesis by (simp add: e synced_def)
  qed
  with f(4) have "synced s1 ?t1" by (simp add: synced_def e)
  with 1 show ?thesis by blast
next
  case False
  note f = synced_fields [OF sy]
  from False p have "r = parentNode (heap s a)" and "s1 = s"
    by (auto simp: CoreNode_parent_def)
  moreover from False f(2) [of a] f(5) [of a] have
    "CoreNode_parent asserts t a = Inr (parentNode (heap s a), t)"
    by (simp add: CoreNode_parent_def)
  ultimately show ?thesis using sy by blast
qed

lemma zIndex_synced:
  "synced s t \<Longrightarrow> CoreNode_zIndex depth asserts s a = Inr (z, s') \<Longrightarrow>
     \<exists>t'. CoreNode_zIndex depth asserts t a = Inr (z, t') \<and> synced s' t'"
proof (induction depth arbitrary: s t a z s')
  case 0
  then show ?case by simp
next
  case (Suc depth)
  obtain parent s1 where p: "CoreNode_parent asserts s a = Inr (parent, s1)"
  proof (cases "CoreNode_parent asserts s a")
    case (Inl e)
    with Suc.prems(2) show ?thesis by (simp add: ebind_def)
  next
    case (Inr v)
    with that show ?thesis by (cases v) simp
  qed
  from parent_synced [OF Suc.prems(1) p] obtain t1 where
    pt: "CoreNode_parent asserts t a = Inr (parent, t1)" and sy1: "synced s1 t1" by blast
  note f1 = synced_fields [OF sy1]
  show ?case
  proof (cases parent)
    case None
    with Suc.prems(2) p have "z = js_or (zIndex (props (heap s1 a))) 0" and "s' = s1"
      by (auto simp: ebind_def Let_def)
    with None pt sy1 f1(1) [of a] show ?thesis by (simp add: ebind_def Let_def)
  next
    case (Some pa)
    obtain pz s2 where q: "CoreNode_zIndex depth asserts s1 pa = Inr (pz, s2)"
    proof (cases "CoreNode_zIndex depth asserts s1 pa")
      case (Inl e)
      with Suc.prems(2) p Some show ?thesis by (simp add: ebind_def Let_def)
    next
      case (Inr v)
      with that show ?thesis by (cases v) simp
    qed
    from Suc.IH [OF sy1 q] obtain t2 where
      qt: "CoreNode_zIndex depth asserts t1 pa = Inr (pz, t2)" and sy2: "synced s2 t2" by blast
    note f2 = synced_fields [OF sy2]
    from Suc.prems(2) p Some q have
      r: "s' = s2" "z = (if get_zIndexLocked (heap s2 pa) \<noteq> 0
                 then (if js_or (zIndex (props (heap s1 a))) 0 < js_or pz 0
                       then js_or (zIndex (props (heap s1 a))) 0 else js_or pz 0)
                 else js_or (zIndex (props (heap s1 a))) 0)"
      by (simp_all add: ebind_def Let_def split: if_splits)
    from pt Some qt f1(1) [of a] f2(1) [of pa] r sy2 show ?thesis
      by (simp add: ebind_def Let_def get_zIndexLocked_def)
  qed
qed


text \<open>
  Claim C6. Let \<open>p\<close> be the parent of node \<open>n\<close> (what the getter \<open>parent\<close> returns), let
  \<open>p\<close> have z-index locking on, and let the \<open>zIndex\<close> getter of \<open>p\<close> return \<open>zp\<close>. Then
  the \<open>zIndex\<close> getter of \<open>n\<close> returns as well (one more stack frame suffices), and its
  result is at most \<open>zp\<close>, whatever z value is stored in \<open>n\<close>.
\<close>

theorem zIndex_capped_by_locked_parent:
  assumes par: "CoreNode_parent asserts s n = Inr (Some p, s1)"
    and locked: "get_zIndexLocked (heap s p) \<noteq> 0"
    and zp: "CoreNode_zIndex depth asserts s p = Inr (zp, sp)"
  shows "\<exists>zn sn. CoreNode_zIndex (Suc depth) asserts s n = Inr (zn, sn) \<and> zn \<le> zp"
proof -
  have sy: "synced s s1" using par by (intro refreshed_synced parent_refreshed)
  from zIndex_synced [OF sy zp] obtain s2 where
    q: "CoreNode_zIndex depth asserts s1 p = Inr (zp, s2)" and sy2: "synced sp s2" by blast
  have "refreshed asserts s sp" using zp by (rule zIndex_refreshed)
  from refreshed_fields(1) [OF this, of p] synced_fields(1) [OF sy2, of p] locked
  have l2: "get_zIndexLocked (heap s2 p) \<noteq> 0" by (simp add: get_zIndexLocked_def)
  let ?z = "js_or (zIndex (props (heap s1 n))) 0"
  from par q l2 have
    "CoreNode_zIndex (Suc depth) asserts s n =
       Inr (if ?z < js_or zp 0 then ?z else js_or zp 0, s2)"
    by (simp add: ebind_def Let_def)
  moreover have "(if ?z < js_or zp 0 then ?z else js_or zp 0) \<le> zp"
    by (simp add: js_or_def)
  ultimately show ?thesis by blast
qed


text \<open>Witness for C6: in \<open>z_scene\<close> the child stores \<open>zIndex = 9\<close>, the locked parent
  has the effective z-index 5, and the child's effective z-index is at most 5.\<close>

theorem zIndex_capped_by_locked_parent_witness:
  "zIndex (props (heap z_scene 2)) = 9 \<and> get_zIndexLocked (heap z_scene 1) \<noteq> 0 \<and>
   CoreNode_zIndex 1 True z_scene 1 = Inr (5, z_scene) \<and>
   (\<exists>zn sn. CoreNode_zIndex 2 True z_scene 2 = Inr (zn, sn) \<and> zn \<le> 5)"
proof -
  have h: "CoreNode_parent True z_scene 2 = Inr (Some 1, z_scene)"
    "get_zIndexLocked (heap z_scene 1) \<noteq> 0"
    "CoreNode_zIndex (Suc 0) True z_scene 1 = Inr (5, z_scene)"
    "zIndex (props (heap z_scene 2)) = 9"
    by (simp_all add: z_scene_def scene_defs tree_defs node_defs get_zIndexLocked_def
        js_or_def Let_def)
  from zIndex_capped_by_locked_parent [OF h(1) h(2) h(3)] h show ?thesis
    by (simp add: numeral_2_eq_2)
qed

section \<open>World alpha\<close>

lemma alpha_scene_nodes:
  "updateMask (heap alpha_scene 1) = 0" "updateMask (heap alpha_scene 2) = 0"
  "parentNode (heap alpha_scene 1) = None" "parentNode (heap alpha_scene 2) = Some 1"
  "alpha (props (heap alpha_scene 1)) = 0" "alpha (props (heap alpha_scene 2)) = 1"
  "zIndex (props (heap alpha_scene 1)) = 0" "zIndex (props (heap alpha_scene 2)) = 0"
  "zIndexLocked (props (heap alpha_scene 1)) = 0"
  "globalTransform (heap alpha_scene 2) = Some Matrix3d_identity"
  by (simp_all add: alpha_scene_def scene_defs tree_defs node_defs update_defs
      Matrix3d_identity_def Let_def)


text \<open>
  Claim C7 at a failing input. In \<open>alpha_scene\<close> the parent has \<open>alpha = 0\<close> (so its
  world alpha is 0) and the child has \<open>alpha = 1\<close>. The product of the child's alpha and
  the alphas of its ancestors is 0, but \<open>worldAlpha\<close> of the child is 1, and that is the
  alpha of the quad that \<open>renderQuads\<close> emits: \<open>parent?.worldAlpha || 1\<close> replaces a
  parent world alpha of 0 by 1.
\<close>

theorem worldAlpha_ignores_transparent_parent:
  "alpha (props (heap alpha_scene 1)) = 0 \<and> alpha (props (heap alpha_scene 2)) = 1 \<and>
   CoreNode_parent True alpha_scene 2 = Inr (Some 1, alpha_scene) \<and>
   CoreNode_worldAlpha 3 True alpha_scene 1 = Inr (0, alpha_scene) \<and>
   CoreNode_worldAlpha 3 True alpha_scene 2 = Inr (1, alpha_scene) \<and>
   quad_alpha (renderQuads 3 True alpha_scene 2) = Some 1"
proof -
  note f = alpha_scene_nodes
  have p1: "CoreNode_parent True alpha_scene 1 = Inr (None, alpha_scene)"
    and p2: "CoreNode_parent True alpha_scene 2 = Inr (Some 1, alpha_scene)"
    by (simp_all add: CoreNode_parent_def f del: One_nat_def)
  have w1: "CoreNode_worldAlpha (Suc d) True alpha_scene 1 = Inr (0, alpha_scene)" for d
    by (simp add: p1 f ebind_def del: One_nat_def)
  have w2: "CoreNode_worldAlpha (Suc (Suc d)) True alpha_scene 2 = Inr (1, alpha_scene)" for d
    by (simp add: p1 p2 f ebind_def js_or_undef_def js_or_def del: One_nat_def)
  have z1: "CoreNode_zIndex (Suc d) True alpha_scene 1 = Inr (0, alpha_scene)" for d
    by (simp add: p1 f ebind_def js_or_def del: One_nat_def)
  have z2: "CoreNode_zIndex (Suc (Suc d)) True alpha_scene 2 = Inr (0, alpha_scene)" for d
    by (simp add: p1 p2 f ebind_def js_or_def get_zIndexLocked_def del: One_nat_def)
  have q: "quad_alpha (renderQuads (Suc (Suc (Suc 0))) True alpha_scene 2) = Some 1"
    by (simp add: renderQuads_def z2 w2 f ebind_def assertTruthy_def quad_alpha_def Let_def
        del: One_nat_def CoreNode_zIndex.simps CoreNode_worldAlpha.simps)
  from f p2 w1 [of "Suc (Suc 0)"] w2 [of "Suc 0"] q show ?thesis
    by (simp add: numeral_3_eq_3)
qed

section \<open>Animation progress\<close>

lemma update_prop_total:
  assumes "map_of (props' an) p \<noteq> None" and "map_of (propStartValues an) p \<noteq> None"
  shows "\<exists>s'. update_prop mcp an s p = Inr s'"
  using assms by (auto simp: update_prop_def Let_def)

lemma update_loop_total:
  "\<forall>p \<in> set ps. map_of (props' an) p \<noteq> None \<and> map_of (propStartValues an) p \<noteq> None \<Longrightarrow>
   \<exists>s'. update_loop mcp an s ps = Inr s'"
proof (induction ps arbitrary: s)
  case Nil
  then show ?case by simp
next
  case (Cons p ps)
  then obtain s1 where "update_prop mcp an s p = Inr s1"
    using update_prop_total [of an p mcp s] by auto
  with Cons show ?case by (simp add: ebind_def)
qed

lemma keys_present_progress [simp]: "keys_present (an\<lparr>progress := v\<rparr>) = keys_present an"
  by (simp add: keys_present_def)


text \<open>The constructor builds animations with \<open>keys_present\<close>, and \<open>reverse\<close> keeps
  it.\<close>

lemma map_of_foldl_update:
  "p \<in> set ks \<or> map_of m p \<noteq> None \<Longrightarrow>
   map_of (foldl (\<lambda>m k. AList.update k (f k) m) m ks) p \<noteq> None"
  by (induction ks arbitrary: m) (auto simp: update_conv')

lemma keys_present_new: "keys_present (CoreAnimation_new g s nd ps st)"
proof -
  have "map_of ps p \<noteq> None \<and>
        map_of (foldl (\<lambda>m k. AList.update k (CoreNode_get s nd k) m) [] (map fst ps)) p \<noteq> None"
    if "p \<in> set (map fst ps)" for p
    using that map_of_foldl_update [of p "map fst ps" "[]" "CoreNode_get s nd"]
    by (simp add: map_of_eq_None_iff)
  then show ?thesis by (simp add: keys_present_def CoreAnimation_new_def Let_def)
qed

lemma reverse_loop_keys:
  "reverse_loop an ks = Inr an' \<Longrightarrow>
     propsList an' = propsList an \<and> fst ` set (props' an') = fst ` set (props' an) \<and>
     fst ` set (propStartValues an') = fst ` set (propStartValues an)"
proof (induction ks arbitrary: an)
  case Nil
  then show ?case by simp
next
  case (Cons k ks)
  from Cons.prems obtain v e where
    v: "map_of (props' an) k = Some v" and e: "map_of (propStartValues an) k = Some e"
    by (auto split: option.splits)
  let ?an1 = "an\<lparr>props' := AList.update k e (props' an),
                propStartValues := AList.update k v (propStartValues an)\<rparr>"
  from Cons.prems v e have "reverse_loop ?an1 ks = Inr an'" by simp
  from Cons.IH [OF this] have
    1: "propsList an' = propsList an"
    and 2: "fst ` set (props' an') = {k} \<union> fst ` set (props' an)"
    and 3: "fst ` set (propStartValues an') = {k} \<union> fst ` set (propStartValues an)"
    by (simp_all add: dom_update)
  from v have "k \<in> fst ` set (props' an)" by (metis domI dom_map_of_conv_image_fst)
  moreover from e have "k \<in> fst ` set (propStartValues an)"
    by (metis domI dom_map_of_conv_image_fst)
  ultimately show ?case using 1 2 3 by auto
qed

lemma keys_present_reverse:
  assumes "keys_present an" and "CoreAnimation_reverse an = Inr an'"
  shows "keys_present an'"
proof -
  let ?an1 = "an\<lparr>progress := 0\<rparr>"
  obtain an2 where r: "reverse_loop ?an1 (map fst (props' ?an1)) = Inr an2"
  proof (cases "reverse_loop ?an1 (map fst (props' ?an1))")
    case (Inl e)
    with assms(2) show ?thesis by (simp add: CoreAnimation_reverse_def Let_def ebind_def)
  next
    case (Inr v)
    with that show ?thesis by simp
  qed
  from assms(2) r have k: "propsList an' = propsList an2" "props' an' = props' an2"
      "propStartValues an' = propStartValues an2"
    by (auto simp: CoreAnimation_reverse_def Let_def ebind_def split: if_splits)
  from reverse_loop_keys [OF r] assms(1) k show ?thesis
    by (simp add: keys_present_def map_of_eq_None_iff)
qed

text \<open>
  Claim C8. \<open>update(dt)\<close> on an animation whose duration is unset or zero emits
  \<open>finished\<close> at once and changes nothing. Otherwise, with \<open>p = progress + dt / duration\<close>:
  if \<open>p > 1\<close>, progress becomes 0 when looping and 1 when not, \<open>finished\<close> is emitted
  and the node is not written; if \<open>p \<le> 1\<close>, progress becomes \<open>p\<close> and nothing is
  emitted. A non-looping animation at progress 1 stays there: every further advance by a
  positive time (with a positive duration) emits \<open>finished\<close> again and changes nothing.
\<close>

theorem animation_update_progress:
  "(duration (settings an) = None \<or> duration (settings an) = Some 0 \<longrightarrow>
      CoreAnimation_update mcp s an dt = Inr (s, an, [Finished])) \<and>
   (duration (settings an) = Some d \<and> d \<noteq> 0 \<and> progress an + dt / d > 1 \<longrightarrow>
      CoreAnimation_update mcp s an dt =
        Inr (s, an\<lparr>progress := (if loop (settings an) then 0 else 1)\<rparr>, [Finished])) \<and>
   (duration (settings an) = Some d \<and> d \<noteq> 0 \<and> progress an + dt / d \<le> 1 \<and>
    keys_present an \<longrightarrow>
      (\<exists>s'. CoreAnimation_update mcp s an dt =
              Inr (s', an\<lparr>progress := progress an + dt / d\<rparr>, []))) \<and>
   (duration (settings an) = Some d \<and> 0 < d \<and> \<not> loop (settings an) \<and> progress an = 1 \<and>
    0 < dt \<longrightarrow>
      CoreAnimation_update mcp s an dt = Inr (s, an, [Finished]))"
proof (intro conjI impI)
  assume "duration (settings an) = None \<or> duration (settings an) = Some 0"
  then show "CoreAnimation_update mcp s an dt = Inr (s, an, [Finished])"
    by (auto simp: CoreAnimation_update_def)
next
  assume "duration (settings an) = Some d \<and> d \<noteq> 0 \<and> progress an + dt / d > 1"
  then show "CoreAnimation_update mcp s an dt =
        Inr (s, an\<lparr>progress := (if loop (settings an) then 0 else 1)\<rparr>, [Finished])"
    by (simp add: CoreAnimation_update_def Let_def)
next
  assume h: "duration (settings an) = Some d \<and> d \<noteq> 0 \<and> progress an + dt / d \<le> 1 \<and>
    keys_present an"
  let ?an1 = "an\<lparr>progress := progress an + dt / d\<rparr>"
  from h have "\<forall>p \<in> set (propsList ?an1).
     map_of (props' ?an1) p \<noteq> None \<and> map_of (propStartValues ?an1) p \<noteq> None"
    by (simp add: keys_present_def)
  from update_loop_total [OF this, of mcp s] obtain s' where
    "update_loop mcp ?an1 s (propsList ?an1) = Inr s'" by blast
  with h have "CoreAnimation_update mcp s an dt = Inr (s', ?an1, [])"
    by (simp add: CoreAnimation_update_def Let_def ebind_def)
  then show "\<exists>s'. CoreAnimation_update mcp s an dt = Inr (s', ?an1, [])" by blast
next
  assume h: "duration (settings an) = Some d \<and> 0 < d \<and> \<not> loop (settings an) \<and>
    progress an = 1 \<and> 0 < dt"
  then have "0 < dt / d" by simp
  with h have "progress an + dt / d > 1" by simp
  with h have "CoreAnimation_update mcp s an dt = Inr (s, an\<lparr>progress := 1\<rparr>, [Finished])"
    by (simp add: CoreAnimation_update_def Let_def)
  moreover from h have "an\<lparr>progress := 1\<rparr> = an" by simp
  ultimately show "CoreAnimation_update mcp s an dt = Inr (s, an, [Finished])" by simp
qed


lemmas anim_defs = CoreAnimation_new_def CoreAnimation_update_def CoreAnimation_reverse_def
  update_prop_def applyEasing_def truthy_easing_def keys_present_def
  no_easing_def no_merge_def plain_settings_def anim_x_def

lemma clean_scene_x: "x (props (heap clean_scene 1)) = 0"
  by (simp add: clean_scene_def scene_defs tree_defs node_defs update_defs
      tree_clearDirtyNodes_def Let_def)


text \<open>Witness for C8 on \<open>anim_x\<close> (duration 4), advanced by 3 each time.\<close>

theorem animation_update_progress_witness:
  "CoreAnimation_update no_merge clean_scene
     (anim_x\<lparr>settings := plain_settings\<lparr>duration := None\<rparr>\<rparr>) 3 =
     Inr (clean_scene, anim_x\<lparr>settings := plain_settings\<lparr>duration := None\<rparr>\<rparr>, [Finished]) \<and>
   progress anim_x = 0 \<and>
   (\<exists>s'. CoreAnimation_update no_merge clean_scene anim_x 3 =
      Inr (s', anim_x\<lparr>progress := 3 / 4\<rparr>, [])) \<and>
   CoreAnimation_update no_merge clean_scene (anim_x\<lparr>progress := 3 / 4\<rparr>) 3 =
      Inr (clean_scene, anim_x\<lparr>progress := 1\<rparr>, [Finished]) \<and>
   CoreAnimation_update no_merge clean_scene (anim_x\<lparr>progress := 1\<rparr>) 3 =
      Inr (clean_scene, anim_x\<lparr>progress := 1\<rparr>, [Finished])"
proof -
  have h: "duration (settings anim_x) = Some 4" "progress anim_x = 0" "keys_present anim_x"
    "\<not> loop (settings anim_x)"
    by (simp_all add: anim_defs)
  note t = animation_update_progress [where mcp = no_merge and s = clean_scene]
  from t [where an = "anim_x\<lparr>settings := plain_settings\<lparr>duration := None\<rparr>\<rparr>" and dt = 3] have
    1: "CoreAnimation_update no_merge clean_scene
     (anim_x\<lparr>settings := plain_settings\<lparr>duration := None\<rparr>\<rparr>) 3 =
     Inr (clean_scene, anim_x\<lparr>settings := plain_settings\<lparr>duration := None\<rparr>\<rparr>, [Finished])"
    by simp
  from t [where an = anim_x and d = 4 and dt = 3] h have
    2: "\<exists>s'. CoreAnimation_update no_merge clean_scene anim_x 3 =
      Inr (s', anim_x\<lparr>progress := 3 / 4\<rparr>, [])" by simp
  from t [where an = "anim_x\<lparr>progress := 3 / 4\<rparr>" and d = 4 and dt = 3] h have
    3: "CoreAnimation_update no_merge clean_scene (anim_x\<lparr>progress := 3 / 4\<rparr>) 3 =
      Inr (clean_scene, anim_x\<lparr>progress := 1\<rparr>, [Finished])" by simp
  from t [where an = "anim_x\<lparr>progress := 1\<rparr>" and d = 4 and dt = 3] h have
    4: "CoreAnimation_update no_merge clean_scene (anim_x\<lparr>progress := 1\<rparr>) 3 =
      Inr (clean_scene, anim_x\<lparr>progress := 1\<rparr>, [Finished])" by simp
  from 1 2 3 4 h show ?thesis by simp
qed


section \<open>Reversing an animation\<close>

text \<open>
  Claim C9 at a failing input. Node 1 of \<open>clean_scene\<close> has \<open>x = 0\<close>; \<open>anim_x\<close> animates
  \<open>x\<close> to 100 over the duration 4 and is advanced by 3 twice. The first advance writes
  \<open>x = 75\<close>; the second exceeds progress 1, emits \<open>finished\<close> and returns before
  writing, so \<open>x\<close> stays 75. After \<open>reverse()\<close> the animation runs from 100 to 0: the
  first advance writes \<open>x = 25\<close>, the second completes without writing. The property
  ends at 25, not at its original value 0. All numbers involved are exactly
  representable as floating-point values.
\<close>

theorem reverse_round_trip_misses_start:
  "x (props (heap clean_scene 1)) = 0 \<and>
   (\<exists>s1 a1 s2 a2 a3 s4 a4 s5 a5.
      CoreAnimation_update no_merge clean_scene anim_x 3 = Inr (s1, a1, []) \<and>
      x (props (heap s1 1)) = 75 \<and>
      CoreAnimation_update no_merge s1 a1 3 = Inr (s2, a2, [Finished]) \<and>
      progress a2 = 1 \<and> x (props (heap s2 1)) = 75 \<and>
      CoreAnimation_reverse a2 = Inr a3 \<and>
      props' a3 = [(P_x, 0)] \<and> propStartValues a3 = [(P_x, 100)] \<and>
      CoreAnimation_update no_merge s2 a3 3 = Inr (s4, a4, []) \<and>
      x (props (heap s4 1)) = 25 \<and>
      CoreAnimation_update no_merge s4 a4 3 = Inr (s5, a5, [Finished]) \<and>
      progress a5 = 1 \<and> x (props (heap s5 1)) = 25)"
  by (simp add: anim_defs clean_scene_x node_defs tree_markDirty_def ebind_def set_x_def Let_def
      del: One_nat_def)

end
